theory Spec2Isabelle
  imports
    Complex_Main
    "HOL-Library.Char_ord"
    "HOL-Library.List_Lexorder"
    "HOL-Library.Product_Lexorder"
    "HOL-Library.Option_ord"
    "HOL-Library.Multiset"
    "HOL-Library.Log_Nat"
begin

section \<open>The table of dashboard_Final_Script.py\<close>

text \<open>
  The script reads one CSV file into a pandas data frame and derives every chart from it.
  A frame is modelled as the list of its rows, in frame order. A numeric cell is the
  rational number that its value is, or \<open>None\<close> for the missing value (pandas' NaN);
  how the library adds such cells is the subject of the subsection on the library
  operations. \<open>parent_company\<close> is the one nullable text column; \<open>country\<close> is text
  and \<open>year\<close> an integer, as the data model declares them.
  The columns \<open>empty\<close> and \<open>o\<close> carry a suffix, since both names are taken in HOL.
\<close>

type_synonym num = "rat option"

record row =
  country :: string
  year :: int
  parent_company :: "string option"
  empty_col :: num
  hdpe :: num
  ldpe :: num
  o_col :: num
  pet :: num
  pp :: num
  ps :: num
  pvc :: num
  grand_total :: num
  num_events :: num
  volunteers :: num
  grand_total_per_volunteer :: num

text \<open>The seven plastic-category columns that the charts select by label.\<close>

datatype pcol = C_hdpe | C_ldpe | C_o | C_pet | C_pp | C_ps | C_pvc

fun cell :: "pcol \<Rightarrow> row \<Rightarrow> num" where
  "cell C_hdpe r = hdpe r"
| "cell C_ldpe r = ldpe r"
| "cell C_o r = o_col r"
| "cell C_pet r = pet r"
| "cell C_pp r = pp r"
| "cell C_ps r = ps r"
| "cell C_pvc r = pvc r"

fun label :: "pcol \<Rightarrow> string" where
  "label C_hdpe = ''hdpe''"
| "label C_ldpe = ''ldpe''"
| "label C_o = ''o''"
| "label C_pet = ''pet''"
| "label C_pp = ''pp''"
| "label C_ps = ''ps''"
| "label C_pvc = ''pvc''"

text \<open>
  What stops the script: the schema check of line 41, a label that is no column of a
  frame, and a column assignment of the wrong length. \<open>BadAddress\<close> belongs to the store
  of frames further down, where it is the read of an address that holds no such frame.
\<close>

datatype error = SchemaError "string list" | KeyError string | ValueError | BadAddress nat

subsection \<open>Library operations on frames\<close>

text \<open>
  The script adds no two cells itself: every sum is one of the library, which adds in the
  arithmetic of the column. That is binary64 floating point, where each addition rounds,
  for a column with a missing or a fractional cell, and 64-bit integers, where an
  addition wraps, for the others; the order of the additions is the library's as well.
  A \<open>summation\<close> is one such sum of an array. \<open>exact_sum\<close> is what holds of it in
  either arithmetic and in every order: where the entries are integers whose absolute
  values add up to at most \<open>2 ^ 53\<close>, no addition rounds or wraps, and the result is
  the sum.
\<close>

type_synonym summation = "rat list \<Rightarrow> rat"

definition exact_sum :: "summation \<Rightarrow> bool" where
  "exact_sum sm \<longleftrightarrow>
     (\<forall>xs. (\<forall>x\<in>set xs. x \<in> \<int>) \<and> sum_list (map abs xs) \<le> 2 ^ 53
            \<longrightarrow> sm xs = sum_list xs)"

text \<open>
  Two instances, both adding from left to right. \<open>float64_round\<close> is the rounding of
  binary64: to 53 significant bits, to the nearest and on a tie to the even neighbour
  (the exponent is not bounded here: no overflow, no subnormal numbers). \<open>binade m\<close> is
  the \<open>e\<close> with \<open>2 ^ e \<le> m < 2 ^ (e + 1)\<close>. A cell is rounded as well, as a value
  read from the file is. \<open>wrap64\<close> is the wrap-around of 64-bit integers.
\<close>

definition round_half_even :: "rat \<Rightarrow> int" where
  "round_half_even x =
     (let f = \<lfloor>x\<rfloor>; d = x - of_int f
      in if d < 1 / 2 then f else if 1 / 2 < d then f + 1 else if even f then f else f + 1)"

definition binade :: "rat \<Rightarrow> int" where
  "binade m = (if 1 \<le> m then bitlen \<lfloor>m\<rfloor> - 1 else - bitlen (\<lceil>1 / m\<rceil> - 1))"

definition float64_round :: "rat \<Rightarrow> rat" where
  "float64_round x =
     (if x = 0 then 0
      else let e = binade \<bar>x\<bar> - 52;
               u = (if 0 \<le> e then 2 ^ nat e else 1 / 2 ^ nat (- e))
           in of_int (round_half_even (x / u)) * u)"

definition float64_sum :: summation where
  "float64_sum xs = foldl (\<lambda>a x. float64_round (a + float64_round x)) 0 xs"

definition wrap64 :: "int \<Rightarrow> int" where
  "wrap64 z = (z + 2 ^ 63) mod 2 ^ 64 - 2 ^ 63"

definition int64_sum :: summation where
  "int64_sum xs = of_int (foldl (\<lambda>a x. wrap64 (a + \<lfloor>x\<rfloor>)) 0 xs)"

text \<open>
  The script calls three sums of the library: \<open>frame[cols].sum()\<close> adds a column of a
  frame, \<open>groupby(key)[cols].sum()\<close> adds a column over the rows of a group, and
  \<open>frame[cols].sum(axis=1)\<close> adds the cells of a row under the selected labels. The
  arithmetic of a sum is that of its column, or the common one of the selected columns,
  and a column keeps its arithmetic in every frame that the script selects from the one
  it has read. The sums of the library are therefore a parameter \<open>msum\<close> of every
  definition that adds cells: a summation for each of the three calls on each column.
  \<open>exact_sums\<close> is what holds of them whatever the arithmetic of the columns;
  \<open>float64_sums\<close> are the sums where every column is one of binary64 numbers.
\<close>

datatype sum_op = Frame_sum string | Group_sum string | Row_sum "string list"

type_synonym summations = "sum_op \<Rightarrow> summation"

definition frame_sum :: "summations \<Rightarrow> pcol \<Rightarrow> summation" where
  "frame_sum msum k = msum (Frame_sum (label k))"

definition group_sum :: "summations \<Rightarrow> pcol \<Rightarrow> summation" where
  "group_sum msum k = msum (Group_sum (label k))"

definition row_sum :: "summations \<Rightarrow> pcol list \<Rightarrow> summation" where
  "row_sum msum ks = msum (Row_sum (map label ks))"

definition ratio_sum :: "summations \<Rightarrow> summation" where
  "ratio_sum msum = msum (Group_sum ''grand_total_per_volunteer'')"

definition exact_sums :: "summations \<Rightarrow> bool" where
  "exact_sums msum \<longleftrightarrow> (\<forall>s. exact_sum (msum s))"

definition float64_sums :: summations where
  "float64_sums s = float64_sum"

text \<open>\<open>Series.sum()\<close> with the default \<open>skipna=True\<close>: a missing cell adds nothing.\<close>

fun skipna :: "num \<Rightarrow> rat" where
  "skipna None = 0"
| "skipna (Some v) = v"

definition nansum :: "summation \<Rightarrow> num list \<Rightarrow> rat" where
  "nansum sm vs = sm (map skipna vs)"

text \<open>\<open>Series.unique()\<close>: the distinct values, in order of first appearance.\<close>

fun unique :: "'a list \<Rightarrow> 'a list" where
  "unique [] = []"
| "unique (x # xs) = x # unique (filter (\<lambda>y. y \<noteq> x) xs)"

text \<open>\<open>Series.dropna()\<close> on a nullable column.\<close>

fun dropna :: "'a option list \<Rightarrow> 'a list" where
  "dropna [] = []"
| "dropna (None # xs) = dropna xs"
| "dropna (Some x # xs) = x # dropna xs"

text \<open>
  \<open>groupby(keys).cumcount()\<close>: each row gets the number of earlier rows of the frame
  that carry its key. \<open>seen\<close> holds the keys of the rows already passed.
\<close>

fun cumcount :: "'k list \<Rightarrow> 'k list \<Rightarrow> nat list" where
  "cumcount seen [] = []"
| "cumcount seen (k # ks) = count_list seen k # cumcount (k # seen) ks"

text \<open>
  One sum per selected column, labelled by the column; \<open>csum k\<close> is the summation of
  the column \<open>k\<close>. With \<open>frame_sum msum\<close> this is \<open>frame[cols].sum()\<close>.
\<close>

definition col_sums ::
  "(pcol \<Rightarrow> summation) \<Rightarrow> pcol list \<Rightarrow> row list \<Rightarrow> (pcol \<times> rat) list" where
  "col_sums csum cols rows = map (\<lambda>k. (k, nansum (csum k) (map (cell k) rows))) cols"

text \<open>
  \<open>groupby("year")[cols].sum().reset_index()\<close>: one row per distinct year, the years
  ascending, holding the year and the sums of the selected columns over its rows.
\<close>

definition groupby_year_sum ::
  "summations \<Rightarrow> pcol list \<Rightarrow> row list \<Rightarrow> (int \<times> (pcol \<times> rat) list) list" where
  "groupby_year_sum msum cols rows =
     map (\<lambda>y. (y, col_sums (group_sum msum) cols (filter (\<lambda>r. year r = y) rows)))
       (sort (unique (map year rows)))"

text \<open>
  \<open>frame[cols].sum(axis=1)\<close> on a grouped frame. For one row the cells under the
  selected labels are looked up, and a label that is no column raises KeyError; the
  cells found are added. The column of the sums has one entry per row.
\<close>

fun labelled :: "pcol list \<Rightarrow> (pcol \<times> rat) list \<Rightarrow> error + rat list" where
  "labelled [] vals = Inr []"
| "labelled (k # ks) vals =
     (case map_of vals k of
        None \<Rightarrow> Inl (KeyError (label k))
      | Some v \<Rightarrow> (case labelled ks vals of Inl e \<Rightarrow> Inl e | Inr vs \<Rightarrow> Inr (v # vs)))"

definition sum_axis1 :: "summations \<Rightarrow> pcol list \<Rightarrow> (pcol \<times> rat) list \<Rightarrow> error + rat" where
  "sum_axis1 msum ks vals =
     (case labelled ks vals of Inl e \<Rightarrow> Inl e | Inr vs \<Rightarrow> Inr (row_sum msum ks vs))"

fun sum_axis1_col ::
  "summations \<Rightarrow> pcol list \<Rightarrow> (int \<times> (pcol \<times> rat) list) list \<Rightarrow> error + rat list" where
  "sum_axis1_col msum ks [] = Inr []"
| "sum_axis1_col msum ks (g # gs) =
     (case sum_axis1 msum ks (snd g) of
        Inl e \<Rightarrow> Inl e
      | Inr v \<Rightarrow>
         (case sum_axis1_col msum ks gs of Inl e \<Rightarrow> Inl e | Inr vs \<Rightarrow> Inr (v # vs)))"

text \<open>
  \<open>groupby("parent_company")["grand_total_per_volunteer"].sum().reset_index()\<close>: the
  group keys are the distinct values of the column, ascending, without the missing value
  (\<open>dropna=True\<close> is the default of \<open>groupby\<close>); each key comes with the sum over its rows.
\<close>

definition groupby_parent_company_sum ::
  "summations \<Rightarrow> row list \<Rightarrow> (string option \<times> rat) list" where
  "groupby_parent_company_sum msum rows =
     map (\<lambda>p. (p, nansum (ratio_sum msum) (map grand_total_per_volunteer
                              (filter (\<lambda>r. parent_company r = p) rows))))
       (sort (unique (filter (\<lambda>p. p \<noteq> None) (map parent_company rows))))"

subsection \<open>Load data (lines 33 to 43)\<close>

text \<open>
  The frame that \<open>read_csv\<close> returns: its column labels, and its rows as far as the
  fifteen required columns go. With a required column absent the script stops before it
  reads a cell.
\<close>

record table =
  columns :: "string list"
  records :: "row list"

definition required :: "string list" where
  "required =
    [''country'', ''year'', ''parent_company'', ''empty'', ''hdpe'', ''ldpe'', ''o'', ''pet'',
     ''pp'', ''ps'', ''pvc'', ''grand_total'', ''num_events'', ''volunteers'',
     ''grand_total_per_volunteer'']"

definition missing :: "string list \<Rightarrow> string list" where
  "missing cols = filter (\<lambda>c. c \<notin> set cols) required"

subsection \<open>Identify total vs company rows (lines 46 to 49)\<close>

definition group_key :: "row \<Rightarrow> string \<times> int" where
  "group_key r = (country r, year r)"

text \<open>
  \<open>df.sort_values(["country", "year"])\<close>: with more than one sort column pandas orders
  the rows by a lexicographic index sort that leaves rows of equal key in their order.
\<close>

definition sort_values :: "row list \<Rightarrow> row list" where
  "sort_values df = sort_key group_key df"

definition is_total_row :: "row list \<Rightarrow> bool list" where
  "is_total_row df = map (\<lambda>n. n = 0) (cumcount [] (map group_key df))"

text \<open>The frame after line 47: the sorted rows, each with its \<open>is_total_row\<close> cell.\<close>

definition classify :: "row list \<Rightarrow> (row \<times> bool) list" where
  "classify df = (let s = sort_values df in zip s (is_total_row s))"

definition totals :: "row list \<Rightarrow> row list" where
  "totals df = map fst (filter (\<lambda>rt. snd rt) (classify df))"

definition companies :: "row list \<Rightarrow> row list" where
  "companies df = map fst (filter (\<lambda>rt. \<not> snd rt) (classify df))"

subsection \<open>Sidebar controls (lines 68 to 78)\<close>

definition year_options :: "row list \<Rightarrow> int list" where
  "year_options df = sort (unique (map year (totals df)))"

definition country_options :: "row list \<Rightarrow> string list" where
  "country_options df = sort (unique (map country (totals df)))"

definition parent_company_options :: "row list \<Rightarrow> string list" where
  "parent_company_options df =
     ''All'' # sort (unique (dropna (map parent_company (companies df))))"

definition totals_y :: "row list \<Rightarrow> int \<Rightarrow> row list" where
  "totals_y df year_selected = filter (\<lambda>r. year r = year_selected) (totals df)"

definition total_row :: "row list \<Rightarrow> int \<Rightarrow> string \<Rightarrow> row list" where
  "total_row df year_selected country_selected =
     filter (\<lambda>r. country r = country_selected) (totals_y df year_selected)"

definition companies_y :: "row list \<Rightarrow> int \<Rightarrow> row list" where
  "companies_y df year_selected = filter (\<lambda>r. year r = year_selected) (companies df)"

definition companies_yc :: "row list \<Rightarrow> int \<Rightarrow> string \<Rightarrow> row list" where
  "companies_yc df year_selected country_selected =
     filter (\<lambda>r. year r = year_selected \<and> country r = country_selected) (companies df)"

subsection \<open>KPI section (lines 85 to 97)\<close>

text \<open>
  The four metrics are the cells of the first row of \<open>total_row\<close> (\<open>iloc[0]\<close>); with
  no such row the script shows a warning instead, which is the value \<open>None\<close>.
\<close>

record kpi =
  total_plastic :: num
  kpi_volunteers :: num
  events :: num
  per_vol :: num

definition metrics :: "row list \<Rightarrow> kpi option" where
  "metrics rows =
     (case rows of
        [] \<Rightarrow> None
      | r # _ \<Rightarrow>
          Some \<lparr>total_plastic = grand_total r, kpi_volunteers = volunteers r,
                events = num_events r, per_vol = grand_total_per_volunteer r\<rparr>)"

definition key_indicators :: "row list \<Rightarrow> int \<Rightarrow> string \<Rightarrow> kpi option" where
  "key_indicators df year_selected country_selected =
     metrics (total_row df year_selected country_selected)"

subsection \<open>World map (lines 110 to 141)\<close>

text \<open>
  The hover tuples of line 110, one per row of \<open>totals_y\<close>, and whether the marker of the
  selected country is drawn (line 132).
\<close>

type_synonym hover = "string \<times> int \<times> num \<times> num \<times> num"

definition custom_hover :: "row list \<Rightarrow> hover list" where
  "custom_hover rows =
     map (\<lambda>r. (country r, year r, grand_total r, volunteers r, grand_total_per_volunteer r))
       rows"

definition world_map :: "row list \<Rightarrow> int \<Rightarrow> string \<Rightarrow> hover list \<times> bool" where
  "world_map df year_selected country_selected =
     (custom_hover (totals_y df year_selected),
      filter (\<lambda>r. country r = country_selected) (totals_y df year_selected) \<noteq> [])"

subsection \<open>Plastic type composition (lines 152 to 162)\<close>

definition plastics_cols :: "pcol list" where
  "plastics_cols = [C_hdpe, C_ldpe, C_o, C_pet, C_pp, C_ps, C_pvc]"

definition comp_for_comp :: "row list \<Rightarrow> int \<Rightarrow> string \<Rightarrow> string \<Rightarrow> row list" where
  "comp_for_comp df year_selected country_selected parent_company_selected =
     (if parent_company_selected = ''All'' then companies_yc df year_selected country_selected
      else filter (\<lambda>r. parent_company r = Some parent_company_selected)
             (companies_yc df year_selected country_selected))"

text \<open>The bar chart is drawn only for a frame that has rows; \<open>None\<close> is no chart.\<close>

definition composition :: "summations \<Rightarrow> row list \<Rightarrow> (pcol \<times> rat) list option" where
  "composition msum rows =
     (if rows = [] then None else Some (col_sums (frame_sum msum) plastics_cols rows))"

definition comp_vals ::
  "summations \<Rightarrow> row list \<Rightarrow> int \<Rightarrow> string \<Rightarrow> string \<Rightarrow> (pcol \<times> rat) list option" where
  "comp_vals msum df year_selected country_selected parent_company_selected =
     composition msum (comp_for_comp df year_selected country_selected parent_company_selected)"

subsection \<open>Recyclable vs non-recyclable trend (lines 182 to 195)\<close>

definition recyclable :: "pcol list" where
  "recyclable = [C_hdpe, C_ldpe, C_pet, C_pp]"

definition non_recyclable :: "pcol list" where
  "non_recyclable = [C_ps, C_pvc, C_o]"

definition comp_country_all_years :: "row list \<Rightarrow> string \<Rightarrow> row list" where
  "comp_country_all_years df country_selected =
     filter (\<lambda>r. country r = country_selected) (companies df)"

text \<open>A row of the frame \<open>trend\<close> after line 195: the year, the seven sums, the two totals.\<close>

record trend_row =
  t_year :: int
  t_sums :: "(pcol \<times> rat) list"
  Recyclable :: rat
  Non_Recyclable :: rat

definition trend_rows ::
  "(int \<times> (pcol \<times> rat) list) list \<Rightarrow> rat list \<Rightarrow> rat list \<Rightarrow> trend_row list" where
  "trend_rows gs a b =
     map (\<lambda>(g, v, w). \<lparr>t_year = fst g, t_sums = snd g, Recyclable = v, Non_Recyclable = w\<rparr>)
       (zip gs (zip a b))"

definition trend_of :: "summations \<Rightarrow> row list \<Rightarrow> error + trend_row list option" where
  "trend_of msum rows =
     (if rows = [] then Inr None
      else let gs = groupby_year_sum msum (recyclable @ non_recyclable) rows
           in (case sum_axis1_col msum recyclable gs of
                 Inl e \<Rightarrow> Inl e
               | Inr a \<Rightarrow>
                  (case sum_axis1_col msum non_recyclable gs of
                     Inl e \<Rightarrow> Inl e
                   | Inr b \<Rightarrow> Inr (Some (trend_rows gs a b)))))"

definition trend ::
  "summations \<Rightarrow> row list \<Rightarrow> string \<Rightarrow> error + trend_row list option" where
  "trend msum df country_selected =
     trend_of msum (comp_country_all_years df country_selected)"

subsection \<open>Plastic type trend (lines 216 to 222)\<close>

definition trend_types_of ::
  "summations \<Rightarrow> row list \<Rightarrow> (int \<times> (pcol \<times> rat) list) list option" where
  "trend_types_of msum rows =
     (if rows = [] then None else Some (groupby_year_sum msum plastics_cols rows))"

definition trend_types ::
  "summations \<Rightarrow> row list \<Rightarrow> string \<Rightarrow> (int \<times> (pcol \<times> rat) list) list option" where
  "trend_types msum df country_selected =
     trend_types_of msum (comp_country_all_years df country_selected)"

subsection \<open>Top 10 parent companies (lines 238 to 245)\<close>

text \<open>
  \<open>sort_values(by="grand_total_per_volunteer", ascending=False)\<close> sorts on one column with
  the default algorithm, which fixes no order among equal sums. The sort is therefore a
  parameter \<open>srt\<close> of \<open>top10\<close>, and \<open>descending\<close> is all that is known of it: it permutes
  its argument and puts greater sums first. \<open>sort_values_desc\<close> is the one instance that
  keeps equal sums in frame order.
\<close>

type_synonym ranking = "(string option \<times> rat) list"

definition descending :: "(ranking \<Rightarrow> ranking) \<Rightarrow> bool" where
  "descending srt =
     (\<forall>xs. mset (srt xs) = mset xs \<and> sorted_wrt (\<lambda>a b. snd b \<le> snd a) (srt xs))"

definition sort_values_desc :: "ranking \<Rightarrow> ranking" where
  "sort_values_desc xs = rev (sort_key snd (rev xs))"

definition top10_of :: "summations \<Rightarrow> (ranking \<Rightarrow> ranking) \<Rightarrow> row list \<Rightarrow> ranking" where
  "top10_of msum srt rows = take 10 (srt (groupby_parent_company_sum msum rows))"

definition top10 ::
  "summations \<Rightarrow> (ranking \<Rightarrow> ranking) \<Rightarrow> row list \<Rightarrow> int \<Rightarrow> ranking" where
  "top10 msum srt df year_selected = top10_of msum srt (companies_y df year_selected)"

section \<open>The script on a store of frames\<close>

text \<open>
  A Python name refers to an object, and a column assignment changes the object it is
  made on, under every name that refers to it. To tell which frames the charts change,
  the script is run here on a store: the list of the frames built so far, where the
  address of a frame is its index. Boolean indexing, \<open>sort_values\<close> and the group sums
  build a new frame; a column assignment writes into the frame at an address; the plain
  assignment of line 155 gives a second name to an address.
\<close>

record frame =
  frame_rows :: "row list"
  is_total_row_col :: "bool list option"
  custom_hover_col :: "hover list option"

record grouped =
  group_rows :: "(int \<times> (pcol \<times> rat) list) list"
  Recyclable_col :: "rat list option"
  Non_Recyclable_col :: "rat list option"

datatype obj = Table frame | Grouped grouped

type_synonym addr = nat

type_synonym store = "obj list"

type_synonym 'a prog = "store \<Rightarrow> error + 'a \<times> store"

definition return :: "'a \<Rightarrow> 'a prog" where
  "return x s = Inr (x, s)"

definition raise :: "error \<Rightarrow> 'a prog" where
  "raise e s = Inl e"

definition bind :: "'a prog \<Rightarrow> ('a \<Rightarrow> 'b prog) \<Rightarrow> 'b prog" where
  "bind m f s = (case m s of Inl e \<Rightarrow> Inl e | Inr xs \<Rightarrow> f (fst xs) (snd xs))"

definition new_obj :: "obj \<Rightarrow> addr prog" where
  "new_obj ob s = Inr (length s, s @ [ob])"

definition get_table :: "addr \<Rightarrow> frame prog" where
  "get_table a s =
     (if a < length s
      then (case s ! a of Table f \<Rightarrow> Inr (f, s) | Grouped g \<Rightarrow> Inl (BadAddress a))
      else Inl (BadAddress a))"

definition get_grouped :: "addr \<Rightarrow> grouped prog" where
  "get_grouped a s =
     (if a < length s
      then (case s ! a of Table f \<Rightarrow> Inl (BadAddress a) | Grouped g \<Rightarrow> Inr (g, s))
      else Inl (BadAddress a))"

definition put_obj :: "addr \<Rightarrow> obj \<Rightarrow> unit prog" where
  "put_obj a ob s = (if a < length s then Inr ((), s[a := ob]) else Inl (BadAddress a))"

text \<open>
  \<open>frame[mask]\<close>: the rows under a true entry of the mask, with every column of the
  frame, as a new frame.
\<close>

definition select :: "bool list \<Rightarrow> 'a list \<Rightarrow> 'a list" where
  "select m xs = map snd (filter fst (zip m xs))"

definition masked :: "bool list \<Rightarrow> frame \<Rightarrow> frame" where
  "masked m f =
     \<lparr>frame_rows = select m (frame_rows f),
      is_total_row_col = map_option (select m) (is_total_row_col f),
      custom_hover_col = map_option (select m) (custom_hover_col f)\<rparr>"

definition getitem_mask :: "addr \<Rightarrow> (frame \<Rightarrow> error + bool list) \<Rightarrow> addr prog" where
  "getitem_mask a msk =
     bind (get_table a)
       (\<lambda>f. case msk f of Inl e \<Rightarrow> raise e | Inr m \<Rightarrow> new_obj (Table (masked m f)))"

text \<open>The masks of the script: a comparison on the cells of each row, and lines 48 and 49.\<close>

definition where_rows :: "(row \<Rightarrow> bool) \<Rightarrow> frame \<Rightarrow> error + bool list" where
  "where_rows p f = Inr (map p (frame_rows f))"

definition col_is_total_row :: "frame \<Rightarrow> error + bool list" where
  "col_is_total_row f =
     (case is_total_row_col f of None \<Rightarrow> Inl (KeyError ''is_total_row'') | Some t \<Rightarrow> Inr t)"

definition not_col_is_total_row :: "frame \<Rightarrow> error + bool list" where
  "not_col_is_total_row f =
     (case is_total_row_col f of
        None \<Rightarrow> Inl (KeyError ''is_total_row'')
      | Some t \<Rightarrow> Inr (map Not t))"

text \<open>\<open>frame[label] = values\<close>: the frame at the address gets or replaces the column.\<close>

definition set_is_total_row :: "addr \<Rightarrow> bool list \<Rightarrow> unit prog" where
  "set_is_total_row a v =
     bind (get_table a)
       (\<lambda>f. if length v = length (frame_rows f)
            then put_obj a (Table (f\<lparr>is_total_row_col := Some v\<rparr>))
            else raise ValueError)"

definition set_custom_hover :: "addr \<Rightarrow> hover list \<Rightarrow> unit prog" where
  "set_custom_hover a v =
     bind (get_table a)
       (\<lambda>f. if length v = length (frame_rows f)
            then put_obj a (Table (f\<lparr>custom_hover_col := Some v\<rparr>))
            else raise ValueError)"

definition set_Recyclable :: "addr \<Rightarrow> rat list \<Rightarrow> unit prog" where
  "set_Recyclable a v =
     bind (get_grouped a)
       (\<lambda>g. if length v = length (group_rows g)
            then put_obj a (Grouped (g\<lparr>Recyclable_col := Some v\<rparr>))
            else raise ValueError)"

definition set_Non_Recyclable :: "addr \<Rightarrow> rat list \<Rightarrow> unit prog" where
  "set_Non_Recyclable a v =
     bind (get_grouped a)
       (\<lambda>g. if length v = length (group_rows g)
            then put_obj a (Grouped (g\<lparr>Non_Recyclable_col := Some v\<rparr>))
            else raise ValueError)"

subsection \<open>Lines 34 to 49 on the store\<close>

text \<open>The names that the rest of the script reads: \<open>df\<close>, \<open>totals\<close> and \<open>companies\<close>.\<close>

record names =
  df_at :: addr
  totals_at :: addr
  companies_at :: addr

definition load_and_classify :: "table \<Rightarrow> names prog" where
  "load_and_classify t =
     bind (new_obj (Table \<lparr>frame_rows = records t, is_total_row_col = None,
                           custom_hover_col = None\<rparr>)) (\<lambda>df0.
     if missing (columns t) \<noteq> [] then raise (SchemaError (missing (columns t)))
     else
       bind (get_table df0) (\<lambda>f0.
       bind (new_obj (Table (f0\<lparr>frame_rows := sort_values (frame_rows f0)\<rparr>))) (\<lambda>df1.
       bind (get_table df1) (\<lambda>f1.
       bind (set_is_total_row df1 (is_total_row (frame_rows f1))) (\<lambda>_.
       bind (getitem_mask df1 col_is_total_row) (\<lambda>t1.
       bind (getitem_mask df1 not_col_is_total_row) (\<lambda>c1.
       return \<lparr>df_at = df1, totals_at = t1, companies_at = c1\<rparr>)))))))"

subsection \<open>Lines 75 to 245 on the store\<close>

record selection =
  year_selected :: int
  country_selected :: string
  parent_company_selected :: string

text \<open>The filtered frames of lines 75 to 78 and of line 185.\<close>

record views =
  totals_y_at :: addr
  total_row_at :: addr
  companies_y_at :: addr
  companies_yc_at :: addr
  comp_country_all_years_at :: addr

definition views_of :: "selection \<Rightarrow> names \<Rightarrow> views prog" where
  "views_of sel n =
     bind (getitem_mask (totals_at n) (where_rows (\<lambda>r. year r = year_selected sel))) (\<lambda>ty.
     bind (getitem_mask ty (where_rows (\<lambda>r. country r = country_selected sel))) (\<lambda>tr.
     bind (getitem_mask (companies_at n) (where_rows (\<lambda>r. year r = year_selected sel))) (\<lambda>cy.
     bind (getitem_mask (companies_at n)
             (where_rows (\<lambda>r. year r = year_selected sel \<and> country r = country_selected sel)))
       (\<lambda>cyc.
     bind (getitem_mask (companies_at n) (where_rows (\<lambda>r. country r = country_selected sel)))
       (\<lambda>cc.
     return \<lparr>totals_y_at = ty, total_row_at = tr, companies_y_at = cy,
             companies_yc_at = cyc, comp_country_all_years_at = cc\<rparr>)))))"

text \<open>The six chart sections of the script, and what each hands to its chart.\<close>

datatype query = Q_kpi | Q_map | Q_composition | Q_trend | Q_trend_types | Q_top10

datatype answer =
    A_kpi "kpi option"
  | A_map "hover list" bool
  | A_composition "(pcol \<times> rat) list option"
  | A_trend "trend_row list option"
  | A_trend_types "(int \<times> (pcol \<times> rat) list) list option"
  | A_top10 ranking

fun section_of ::
  "summations \<Rightarrow> (ranking \<Rightarrow> ranking) \<Rightarrow> selection \<Rightarrow> views \<Rightarrow> query \<Rightarrow> answer prog" where
  "section_of msum srt sel v Q_kpi =
     bind (get_table (total_row_at v)) (\<lambda>f. return (A_kpi (metrics (frame_rows f))))"
| "section_of msum srt sel v Q_map =
     bind (get_table (totals_y_at v)) (\<lambda>f.
     bind (set_custom_hover (totals_y_at v) (custom_hover (frame_rows f))) (\<lambda>_.
     bind (get_table (totals_y_at v)) (\<lambda>f1.
       case custom_hover_col f1 of
         None \<Rightarrow> raise (KeyError ''custom_hover'')
       | Some h \<Rightarrow>
           bind (getitem_mask (totals_y_at v)
                   (where_rows (\<lambda>r. country r = country_selected sel))) (\<lambda>sel_t.
           bind (get_table sel_t) (\<lambda>f2. return (A_map h (frame_rows f2 \<noteq> [])))))))"
| "section_of msum srt sel v Q_composition =
     bind (if parent_company_selected sel = ''All'' then return (companies_yc_at v)
           else getitem_mask (companies_yc_at v)
                  (where_rows (\<lambda>r. parent_company r = Some (parent_company_selected sel))))
       (\<lambda>comp_for_comp_at.
     bind (get_table comp_for_comp_at) (\<lambda>f.
       return (A_composition (composition msum (frame_rows f)))))"
| "section_of msum srt sel v Q_trend =
     bind (get_table (comp_country_all_years_at v)) (\<lambda>f.
       if frame_rows f = [] then return (A_trend None)
       else
         bind (new_obj (Grouped \<lparr>group_rows =
                                   groupby_year_sum msum (recyclable @ non_recyclable)
                                     (frame_rows f),
                                 Recyclable_col = None, Non_Recyclable_col = None\<rparr>)) (\<lambda>tr.
         bind (get_grouped tr) (\<lambda>g.
           case sum_axis1_col msum recyclable (group_rows g) of
             Inl e \<Rightarrow> raise e
           | Inr a \<Rightarrow>
         bind (set_Recyclable tr a) (\<lambda>_.
         bind (get_grouped tr) (\<lambda>g1.
           case sum_axis1_col msum non_recyclable (group_rows g1) of
             Inl e \<Rightarrow> raise e
           | Inr b \<Rightarrow>
         bind (set_Non_Recyclable tr b) (\<lambda>_.
         bind (get_grouped tr) (\<lambda>g2.
           case Recyclable_col g2 of
             None \<Rightarrow> raise (KeyError ''Recyclable'')
           | Some a2 \<Rightarrow>
              (case Non_Recyclable_col g2 of
                 None \<Rightarrow> raise (KeyError ''Non-Recyclable'')
               | Some b2 \<Rightarrow> return (A_trend (Some (trend_rows (group_rows g2) a2 b2)))))))))))"
| "section_of msum srt sel v Q_trend_types =
     bind (get_table (comp_country_all_years_at v)) (\<lambda>f.
       return (A_trend_types (trend_types_of msum (frame_rows f))))"
| "section_of msum srt sel v Q_top10 =
     bind (get_table (companies_y_at v)) (\<lambda>f.
       return (A_top10 (top10_of msum srt (frame_rows f))))"

fun sections ::
  "summations \<Rightarrow> (ranking \<Rightarrow> ranking) \<Rightarrow> selection \<Rightarrow> views \<Rightarrow> query list
     \<Rightarrow> answer list prog" where
  "sections msum srt sel v [] = return []"
| "sections msum srt sel v (q # qs) =
     bind (section_of msum srt sel v q) (\<lambda>a.
     bind (sections msum srt sel v qs) (\<lambda>as. return (a # as)))"

text \<open>
  One pass over the lines below 49 for a selection: the filtered frames, then the chart
  sections \<open>qs\<close>. The script runs \<open>script_order\<close>; any other list is the same sections in
  another order.
\<close>

definition page ::
  "summations \<Rightarrow> (ranking \<Rightarrow> ranking) \<Rightarrow> names \<Rightarrow> selection \<Rightarrow> query list
     \<Rightarrow> answer list prog" where
  "page msum srt n sel qs = bind (views_of sel n) (\<lambda>v. sections msum srt sel v qs)"

definition script_order :: "query list" where
  "script_order = [Q_kpi, Q_map, Q_composition, Q_trend, Q_trend_types, Q_top10]"

definition dashboard ::
  "summations \<Rightarrow> (ranking \<Rightarrow> ranking) \<Rightarrow> table \<Rightarrow> selection \<Rightarrow> answer list prog" where
  "dashboard msum srt t sel =
     bind (load_and_classify t) (\<lambda>n. page msum srt n sel script_order)"

text \<open>A session: one pass after the other on the same classified frames.\<close>

fun session ::
  "summations \<Rightarrow> (ranking \<Rightarrow> ranking) \<Rightarrow> names \<Rightarrow> (selection \<times> query list) list
     \<Rightarrow> answer list list prog" where
  "session msum srt n [] = return []"
| "session msum srt n (x # xs) =
     bind (page msum srt n (fst x) (snd x)) (\<lambda>as.
     bind (session msum srt n xs) (\<lambda>rest. return (as # rest)))"

text \<open>What each section shows, as a function of the loaded rows and the selection.\<close>

fun answer_of ::
  "summations \<Rightarrow> (ranking \<Rightarrow> ranking) \<Rightarrow> row list \<Rightarrow> selection \<Rightarrow> query
     \<Rightarrow> error + answer" where
  "answer_of msum srt df sel Q_kpi =
     Inr (A_kpi (key_indicators df (year_selected sel) (country_selected sel)))"
| "answer_of msum srt df sel Q_map =
     Inr (A_map (fst (world_map df (year_selected sel) (country_selected sel)))
                (snd (world_map df (year_selected sel) (country_selected sel))))"
| "answer_of msum srt df sel Q_composition =
     Inr (A_composition (comp_vals msum df (year_selected sel) (country_selected sel)
                           (parent_company_selected sel)))"
| "answer_of msum srt df sel Q_trend =
     (case trend msum df (country_selected sel) of
        Inl e \<Rightarrow> Inl e
      | Inr ts \<Rightarrow> Inr (A_trend ts))"
| "answer_of msum srt df sel Q_trend_types =
     Inr (A_trend_types (trend_types msum df (country_selected sel)))"
| "answer_of msum srt df sel Q_top10 = Inr (A_top10 (top10 msum srt df (year_selected sel)))"

subsection \<open>What the store holds\<close>

text \<open>
  \<open>holds_rows s a rows\<close>: the frame at address \<open>a\<close> of the store has the rows \<open>rows\<close>.
  \<open>names_hold\<close> says so of the three frames of the classification, and \<open>views_hold\<close> of
  the five filtered frames of a selection, which lie at or above the address \<open>m\<close>.
\<close>

definition holds_rows :: "store \<Rightarrow> addr \<Rightarrow> row list \<Rightarrow> bool" where
  "holds_rows s a rows \<longleftrightarrow> a < length s \<and> (\<exists>f. s ! a = Table f \<and> frame_rows f = rows)"

definition names_hold :: "row list \<Rightarrow> names \<Rightarrow> store \<Rightarrow> bool" where
  "names_hold df n s \<longleftrightarrow>
     holds_rows s (df_at n) (sort_values df)
     \<and> holds_rows s (totals_at n) (totals df)
     \<and> holds_rows s (companies_at n) (companies df)"

definition views_hold :: "nat \<Rightarrow> row list \<Rightarrow> selection \<Rightarrow> views \<Rightarrow> store \<Rightarrow> bool" where
  "views_hold m df sel v s \<longleftrightarrow>
     m \<le> totals_y_at v \<and> m \<le> total_row_at v \<and> m \<le> companies_y_at v
     \<and> m \<le> companies_yc_at v \<and> m \<le> comp_country_all_years_at v
     \<and> holds_rows s (totals_y_at v) (totals_y df (year_selected sel))
     \<and> holds_rows s (total_row_at v) (total_row df (year_selected sel) (country_selected sel))
     \<and> holds_rows s (companies_y_at v) (companies_y df (year_selected sel))
     \<and> holds_rows s (companies_yc_at v)
         (companies_yc df (year_selected sel) (country_selected sel))
     \<and> holds_rows s (comp_country_all_years_at v)
         (comp_country_all_years df (country_selected sel))"

section \<open>Sample tables and comparison values\<close>

text \<open>
  Eight records of three groups, not in sorted order: the total row of each group comes
  first among its records, one company row has no parent company, and the company
  \<open>Bolt\<close> of 2019 reports in another year as well.
\<close>

definition example_row :: "string \<Rightarrow> int \<Rightarrow> string option \<Rightarrow> rat \<Rightarrow> rat \<Rightarrow> rat \<Rightarrow> row" where
  "example_row c y p h s v =
     \<lparr>country = c, year = y, parent_company = p, empty_col = None, hdpe = Some h,
      ldpe = Some 0, o_col = Some 0, pet = Some 0, pp = Some 0, ps = Some s, pvc = None,
      grand_total = Some (h + s), num_events = Some 1, volunteers = Some 10,
      grand_total_per_volunteer = Some v\<rparr>"

definition example_df :: "row list" where
  "example_df =
     [example_row ''B'' 2020 (Some ''Grand Total'') 7 1 1,
      example_row ''A'' 2020 (Some ''Grand Total'') 60 40 10,
      example_row ''A'' 2019 (Some ''Grand Total'') 5 5 1,
      example_row ''A'' 2020 (Some ''Acme'') 30 20 5,
      example_row ''B'' 2020 (Some ''Acme'') 7 1 1,
      example_row ''A'' 2020 None 20 10 3,
      example_row ''A'' 2019 (Some ''Bolt'') 5 5 1,
      example_row ''A'' 2020 (Some ''Bolt'') 10 10 2]"

text \<open>
  A year with more than ten companies: a total row and twelve company rows of country M
  in 2021, the company of \<open>n\<close> letters with the ratio \<open>n\<close>.
\<close>

definition example_many :: "row list" where
  "example_many =
     example_row ''M'' 2021 (Some ''Grand Total'') 78 0 78
       # map (\<lambda>n. example_row ''M'' 2021 (Some (replicate n CHR ''c'')) 1 0 (of_nat n))
           [1..<13]"

text \<open>
  A table with large counts: company X of country K reports \<open>2 ^ 53\<close> pieces of hdpe
  and one of ldpe in 2022, company Y one piece of hdpe. A company row of another country
  has no category cell, so every category column holds a missing value and is a column
  of binary64 numbers.
\<close>

definition big_row :: "string \<Rightarrow> string \<Rightarrow> num \<Rightarrow> num \<Rightarrow> num \<Rightarrow> row" where
  "big_row c p h l d =
     \<lparr>country = c, year = 2022, parent_company = Some p, empty_col = d, hdpe = h,
      ldpe = l, o_col = d, pet = d, pp = d, ps = d, pvc = d,
      grand_total = Some 0, num_events = Some 1, volunteers = Some 10,
      grand_total_per_volunteer = Some 0\<rparr>"

definition example_big :: "row list" where
  "example_big =
     [big_row ''K'' ''Grand Total'' (Some (2 ^ 53)) (Some 1) (Some 0),
      big_row ''K'' ''X'' (Some (2 ^ 53)) (Some 1) (Some 0),
      big_row ''K'' ''Y'' (Some 1) (Some 0) (Some 0),
      big_row ''L'' ''Grand Total'' (Some 0) (Some 0) (Some 0),
      big_row ''L'' ''Z'' None None None]"

text \<open>
  A table for the totals of the trend: one company of country K reports \<open>2 ^ 53\<close>
  pieces of hdpe in 2022 and one piece in each of the other six categories.
\<close>

definition example_big_totals :: "row list" where
  "example_big_totals =
     [big_row ''K'' ''Grand Total'' (Some (2 ^ 53)) (Some 1) (Some 1),
      big_row ''K'' ''X'' (Some (2 ^ 53)) (Some 1) (Some 1),
      big_row ''L'' ''Grand Total'' (Some 0) (Some 0) (Some 0),
      big_row ''L'' ''Z'' None None None]"

definition example_table :: table where
  "example_table = \<lparr>columns = required, records = example_df\<rparr>"

definition example_table_no_pvc :: table where
  "example_table_no_pvc = \<lparr>columns = remove1 ''pvc'' required, records = example_df\<rparr>"

definition example_selection :: selection where
  "example_selection =
     \<lparr>year_selected = 2020, country_selected = ''A'', parent_company_selected = ''Acme''\<rparr>"

definition example_other_selection :: selection where
  "example_other_selection =
     \<lparr>year_selected = 2019, country_selected = ''B'', parent_company_selected = ''All''\<rparr>"

subsection \<open>The sum of the per-company compositions\<close>

text \<open>
  The comparison value of the composition chart, as the specification words it: the
  composition is computed for each distinct parent company present among the company
  rows of the selected country and year, and the results are added category by category.
  A category that a result does not hold counts 0. \<open>null_company_sums\<close> are the category
  sums of the company rows that name no parent company.
\<close>

definition parent_companies_present :: "row list \<Rightarrow> string list" where
  "parent_companies_present rows = unique (dropna (map parent_company rows))"

definition category_value :: "(pcol \<times> rat) list option \<Rightarrow> pcol \<Rightarrow> rat" where
  "category_value res k =
     (case res of
        None \<Rightarrow> 0
      | Some vals \<Rightarrow> (case map_of vals k of None \<Rightarrow> 0 | Some v \<Rightarrow> v))"

definition sum_of_company_compositions ::
  "summations \<Rightarrow> row list \<Rightarrow> int \<Rightarrow> string \<Rightarrow> (pcol \<times> rat) list" where
  "sum_of_company_compositions msum df y c =
     map (\<lambda>k. (k, sum_list (map (\<lambda>p. category_value (comp_vals msum df y c p) k)
                    (parent_companies_present (companies_yc df y c)))))
       plastics_cols"

definition null_company_sums ::
  "summations \<Rightarrow> row list \<Rightarrow> int \<Rightarrow> string \<Rightarrow> (pcol \<times> rat) list" where
  "null_company_sums msum df y c =
     col_sums (frame_sum msum) plastics_cols
       (filter (\<lambda>r. parent_company r = None) (companies_yc df y c))"

definition add_pointwise :: "(pcol \<times> rat) list \<Rightarrow> (pcol \<times> rat) list \<Rightarrow> (pcol \<times> rat) list" where
  "add_pointwise a b = map (\<lambda>(x, y). (fst x, snd x + snd y)) (zip a b)"

subsection \<open>Rows whose sums are exact\<close>

text \<open>
  \<open>integral_cells\<close>: every category cell of the rows is an integer or missing.
  \<open>column_magnitude k\<close> adds the absolute values of the cells of one category, and
  \<open>magnitude\<close> those of all seven categories.
\<close>

definition integral_cells :: "row list \<Rightarrow> bool" where
  "integral_cells rows \<longleftrightarrow> (\<forall>r\<in>set rows. \<forall>k\<in>set plastics_cols. skipna (cell k r) \<in> \<int>)"

definition column_magnitude :: "pcol \<Rightarrow> row list \<Rightarrow> rat" where
  "column_magnitude k rows = sum_list (map (\<lambda>r. \<bar>skipna (cell k r)\<bar>) rows)"

definition magnitude :: "row list \<Rightarrow> rat" where
  "magnitude rows = sum_list (map (\<lambda>k. column_magnitude k rows) plastics_cols)"

subsection \<open>The parent companies of one year\<close>

text \<open>
  The choices of parent company as the specification words them: the sentinel and the
  distinct parent companies named by the company rows of the selected year.
\<close>

definition parent_company_inputs_of_year :: "row list \<Rightarrow> int \<Rightarrow> string set" where
  "parent_company_inputs_of_year df y =
     insert ''All'' (set (parent_companies_present (companies_y df y)))"

section \<open>Properties of the classification\<close>

lemma length_cumcount: "length (cumcount seen ks) = length ks"
  by (induction ks arbitrary: seen) auto

text \<open>
  The rows of key \<open>k\<close> that \<open>cumcount\<close> numbers 0: none when the key was seen before,
  and otherwise the first of them.
\<close>

lemma tagged_totals:
  "map fst (filter (\<lambda>rt. snd rt \<and> f (fst rt) = k)
      (zip xs (map (\<lambda>n. n = 0) (cumcount seen (map f xs)))))
   = (if k \<in> set seen then [] else take 1 (filter (\<lambda>r. f r = k) xs))"
proof (induction xs arbitrary: seen)
  case Nil
  then show ?case by simp
next
  case (Cons x xs)
  show ?case
  proof (cases "f x = k")
    case True
    then show ?thesis using Cons.IH [of "f x # seen"]
      by (auto simp: count_list_0_iff)
  next
    case False
    then show ?thesis using Cons.IH [of "f x # seen"]
      by (auto simp: count_list_0_iff)
  qed
qed

lemma tagged_companies:
  "map fst (filter (\<lambda>rt. \<not> snd rt \<and> f (fst rt) = k)
      (zip xs (map (\<lambda>n. n = 0) (cumcount seen (map f xs)))))
   = (if k \<in> set seen then filter (\<lambda>r. f r = k) xs
      else drop 1 (filter (\<lambda>r. f r = k) xs))"
proof (induction xs arbitrary: seen)
  case Nil
  then show ?case by simp
next
  case (Cons x xs)
  show ?case
  proof (cases "f x = k")
    case True
    then show ?thesis using Cons.IH [of "f x # seen"]
      by (auto simp: count_list_0_iff)
  next
    case False
    then show ?thesis using Cons.IH [of "f x # seen"]
      by (auto simp: count_list_0_iff)
  qed
qed

lemma map_fst_classify: "map fst (classify df) = sort_values df"
  by (simp add: classify_def Let_def is_total_row_def length_cumcount)

lemma group_sort_values:
  "filter (\<lambda>r. group_key r = k) (sort_values df) = filter (\<lambda>r. group_key r = k) df"
  by (simp add: sort_values_def sort_key_stable)

lemma group_totals:
  "filter (\<lambda>r. group_key r = k) (totals df) = take 1 (filter (\<lambda>r. group_key r = k) df)"
proof -
  have "filter (\<lambda>r. group_key r = k) (totals df)
      = map fst (filter (\<lambda>rt. snd rt \<and> group_key (fst rt) = k) (classify df))"
    by (simp add: totals_def filter_map comp_def conj_commute)
  also have "\<dots> = take 1 (filter (\<lambda>r. group_key r = k) (sort_values df))"
    using tagged_totals [of group_key k "sort_values df" "[]"]
    by (simp add: classify_def Let_def is_total_row_def)
  finally show ?thesis by (simp add: group_sort_values)
qed

lemma group_companies:
  "filter (\<lambda>r. group_key r = k) (companies df) = drop 1 (filter (\<lambda>r. group_key r = k) df)"
proof -
  have "filter (\<lambda>r. group_key r = k) (companies df)
      = map fst (filter (\<lambda>rt. \<not> snd rt \<and> group_key (fst rt) = k) (classify df))"
    by (simp add: companies_def filter_map comp_def conj_commute)
  also have "\<dots> = drop 1 (filter (\<lambda>r. group_key r = k) (sort_values df))"
    using tagged_companies [of group_key k "sort_values df" "[]"]
    by (simp add: classify_def Let_def is_total_row_def)
  finally show ?thesis by (simp add: group_sort_values)
qed

text \<open>
  C1. Every (country, year) group that has a record has exactly one record tagged as
  total row in the classified frame, and all its other records carry the company tag
  (the negation of \<open>is_total_row\<close>, line 49); the classified frame holds the records of
  the input, each once.
\<close>

theorem one_total_row_per_group:
  assumes "k \<in> group_key ` set df"
  shows "length (filter (\<lambda>rt. group_key (fst rt) = k \<and> snd rt) (classify df)) = 1
       \<and> length (filter (\<lambda>rt. group_key (fst rt) = k \<and> \<not> snd rt) (classify df)) + 1
           = length (filter (\<lambda>r. group_key r = k) df)
       \<and> mset (map fst (classify df)) = mset df"
proof -
  from assms have ne: "filter (\<lambda>r. group_key r = k) df \<noteq> []"
    by (auto simp: filter_empty_conv)
  have "length (filter (\<lambda>rt. group_key (fst rt) = k \<and> snd rt) (classify df))
      = length (filter (\<lambda>r. group_key r = k) (totals df))"
    by (simp add: totals_def filter_map comp_def conj_commute)
  also have "\<dots> = 1"
    using ne by (cases "filter (\<lambda>r. group_key r = k) df") (simp_all add: group_totals)
  finally have a: "length (filter (\<lambda>rt. group_key (fst rt) = k \<and> snd rt) (classify df)) = 1" .
  have "length (filter (\<lambda>rt. group_key (fst rt) = k \<and> \<not> snd rt) (classify df))
      = length (filter (\<lambda>r. group_key r = k) (companies df))"
    by (simp add: companies_def filter_map comp_def conj_commute)
  also have "\<dots> + 1 = length (filter (\<lambda>r. group_key r = k) df)"
    using ne by (cases "filter (\<lambda>r. group_key r = k) df") (simp_all add: group_companies)
  finally have b:
    "length (filter (\<lambda>rt. group_key (fst rt) = k \<and> \<not> snd rt) (classify df)) + 1
       = length (filter (\<lambda>r. group_key r = k) df)" .
  have c: "mset (map fst (classify df)) = mset df"
    by (simp add: map_fst_classify sort_values_def)
  from a b c show ?thesis by simp
qed

text \<open>In the sample table the group of country A in 2020 has four records.\<close>

theorem one_total_row_per_group_witness:
  "(''A'', 2020) \<in> group_key ` set example_df
   \<and> length (filter (\<lambda>rt. group_key (fst rt) = (''A'', 2020) \<and> snd rt)
         (classify example_df)) = 1
   \<and> length (filter (\<lambda>rt. group_key (fst rt) = (''A'', 2020) \<and> \<not> snd rt)
         (classify example_df)) = 3"
proof -
  have h: "(''A'', 2020) \<in> group_key ` set example_df"
    by (simp add: example_df_def example_row_def group_key_def)
  have n: "length (filter (\<lambda>r. group_key r = (''A'', 2020)) example_df) = 4"
    by (simp add: example_df_def example_row_def group_key_def)
  from one_total_row_per_group [OF h] n h show ?thesis by simp
qed




section \<open>Properties of the library operations\<close>

lemma set_unique: "set (unique xs) = set xs"
  by (induction xs rule: unique.induct) auto

lemma distinct_unique: "distinct (unique xs)"
  by (induction xs rule: unique.induct) (auto simp: set_unique)

lemma set_dropna: "set (dropna xs) = {x. Some x \<in> set xs}"
  by (induction xs rule: dropna.induct) auto

lemma map_of_col_sums:
  "k \<in> set cols \<Longrightarrow>
     map_of (col_sums csum cols rows) k = Some (nansum (csum k) (map (cell k) rows))"
  unfolding col_sums_def by (induction cols) auto

lemma labelled_col_sums:
  "set ks \<subseteq> set cols \<Longrightarrow>
     labelled ks (col_sums csum cols rows)
       = Inr (map (\<lambda>k. nansum (csum k) (map (cell k) rows)) ks)"
  by (induction ks) (simp_all add: map_of_col_sums)

lemma sum_axis1_col_sums:
  "set ks \<subseteq> set cols \<Longrightarrow>
     sum_axis1 msum ks (col_sums csum cols rows)
       = Inr (row_sum msum ks (map (\<lambda>k. nansum (csum k) (map (cell k) rows)) ks))"
  by (simp add: sum_axis1_def labelled_col_sums)

lemma sum_axis1_col_groups:
  "set ks \<subseteq> set cols \<Longrightarrow>
     sum_axis1_col msum ks (map (\<lambda>y. (y, col_sums csum cols (G y))) ys)
       = Inr (map (\<lambda>y. row_sum msum ks
                       (map (\<lambda>k. nansum (csum k) (map (cell k) (G y))) ks)) ys)"
  by (induction ys) (simp_all add: sum_axis1_col_sums)

subsection \<open>Sums that do not round\<close>

lemma sum_list_abs_nonneg: "0 \<le> sum_list (map abs (xs :: rat list))"
  by (induction xs) auto

lemma sum_list_abs_bound: "\<bar>sum_list (xs :: rat list)\<bar> \<le> sum_list (map abs xs)"
  by (induction xs) auto

lemma sum_list_Ints: "\<forall>x\<in>set xs. x \<in> \<int> \<Longrightarrow> sum_list (xs :: rat list) \<in> \<int>"
  by (induction xs) auto

lemma sum_list_filter_le:
  "(\<And>x. 0 \<le> f x) \<Longrightarrow> sum_list (map f (filter P xs)) \<le> sum_list (map f xs)"
  for f :: "'a \<Rightarrow> rat"
  by (induction xs) (auto intro: add_increasing)

lemma round_half_even_of_int [simp]: "round_half_even (of_int j) = j"
  by (simp add: round_half_even_def)

text \<open>Binary64 holds every integer up to \<open>2 ^ 53\<close> in absolute value.\<close>

lemma float64_round_int:
  assumes "\<bar>k\<bar> \<le> 2 ^ 53"
  shows "float64_round (of_int k) = of_int k"
proof (cases "k = 0")
  case True
  then show ?thesis by (simp add: float64_round_def)
next
  case False
  define m where "m = \<bar>k\<bar>"
  have m: "0 < m" "m \<le> 2 ^ 53" using False assms by (auto simp: m_def)
  have ab: "\<bar>of_int k :: rat\<bar> = of_int m" by (simp add: m_def)
  have bin: "binade (of_int m) = bitlen m - 1"
    using m by (simp add: binade_def)
  from bitlen_bounds [OF m(1)] have lo: "2 ^ nat (bitlen m - 1) \<le> m" by simp
  have bl: "1 \<le> bitlen m" using m(1) by (auto simp: bitlen_alt_def)
  show ?thesis
  proof (cases "bitlen m \<le> 53")
    case True
    define n where "n = nat (53 - bitlen m)"
    have e: "binade (of_int m) - 52 = - int n \<or> (n = 0 \<and> binade (of_int m) - 52 = 0)"
      using True by (simp add: bin n_def)
    have "(of_int k :: rat) / (1 / 2 ^ n) = of_int (k * 2 ^ n)" by simp
    then have r: "of_int (round_half_even ((of_int k :: rat) / (1 / 2 ^ n))) * (1 / 2 ^ n)
        = (of_int k :: rat)"
      by (simp only: round_half_even_of_int) simp
    show ?thesis
    proof (cases "n = 0")
      case True
      with e have "binade (of_int m) - 52 = 0" by auto
      with False show ?thesis by (simp add: float64_round_def ab Let_def)
    next
      case n0: False
      with e have "binade (of_int m) - 52 = - int n" by auto
      with False n0 r show ?thesis by (simp add: float64_round_def ab Let_def)
    qed
  next
    case big: False
    then have "54 \<le> bitlen m" by simp
    then have "(2::int) ^ 53 \<le> 2 ^ nat (bitlen m - 1)"
      by (intro power_increasing) auto
    with lo m(2) have me: "m = 2 ^ 53" and "2 ^ nat (bitlen m - 1) = (2::int) ^ 53" by auto
    then have "nat (bitlen m - 1) = 53"
      by (metis numeral_One numeral_less_iff one_less_numeral_iff power_inject_exp
          semiring_norm(76))
    then have b: "bitlen m = 54" using bl by auto
    have "k = 2 ^ 53 \<or> k = - (2 ^ 53)"
      using me by (auto simp: m_def abs_if split: if_splits)
    then obtain j where j: "k = 2 * j" by auto
    have h: "(of_int k :: rat) / 2 = of_int j" by (simp add: j)
    have "float64_round (of_int k) = of_int (round_half_even ((of_int k :: rat) / 2)) * 2"
      using False by (simp add: float64_round_def ab Let_def bin b)
    also have "\<dots> = of_int k" by (simp only: h round_half_even_of_int) (simp add: j)
    finally show ?thesis .
  qed
qed

lemma float64_fold_exact:
  assumes "\<forall>x\<in>set xs. x \<in> \<int>" and "a \<in> \<int>" and "\<bar>a\<bar> + sum_list (map abs xs) \<le> 2 ^ 53"
  shows "foldl (\<lambda>a x. float64_round (a + float64_round x)) a xs = a + sum_list xs"
  using assms
proof (induction xs arbitrary: a)
  case Nil
  then show ?case by simp
next
  case (Cons x xs)
  from Cons.prems obtain i j where ij: "a = of_int i" "x = of_int j"
    by (auto elim!: Ints_cases)
  have "\<bar>a + x\<bar> \<le> \<bar>a\<bar> + \<bar>x\<bar>" by simp
  also have "\<dots> \<le> \<bar>a\<bar> + sum_list (map abs (x # xs))"
    using sum_list_abs_nonneg [of xs] by simp
  finally have b: "\<bar>a + x\<bar> \<le> 2 ^ 53" using Cons.prems(3) by simp
  then have "\<bar>i + j\<bar> \<le> 2 ^ 53"
    unfolding ij by (metis of_int_abs of_int_add of_int_le_iff of_int_numeral of_int_power)
  from float64_round_int [OF this] have r: "float64_round (a + x) = a + x"
    by (simp add: ij)
  have "\<bar>x\<bar> \<le> \<bar>a\<bar> + sum_list (map abs (x # xs))"
    using sum_list_abs_nonneg [of xs] by simp
  with Cons.prems(3) have "\<bar>x\<bar> \<le> 2 ^ 53" by simp
  then have "\<bar>j\<bar> \<le> 2 ^ 53"
    unfolding ij by (metis of_int_abs of_int_le_iff of_int_numeral of_int_power)
  from float64_round_int [OF this] have rx: "float64_round x = x"
    by (simp add: ij)
  have "\<bar>a + x\<bar> + sum_list (map abs xs) \<le> \<bar>a\<bar> + sum_list (map abs (x # xs))"
    by simp
  with Cons.prems(3) have b2: "\<bar>a + x\<bar> + sum_list (map abs xs) \<le> 2 ^ 53" by simp
  have "a + x \<in> \<int>" using Cons.prems by auto
  from Cons.IH [OF _ this b2] Cons.prems(1) show ?case by (simp add: r rx)
qed

lemma exact_sum_float64_sum: "exact_sum float64_sum"
  unfolding exact_sum_def float64_sum_def
  using float64_fold_exact [of _ 0] by auto

lemma wrap64_small: "\<bar>z\<bar> \<le> 2 ^ 53 \<Longrightarrow> wrap64 z = z"
  by (simp add: wrap64_def abs_le_iff)

lemma int64_fold_exact:
  assumes "\<forall>x\<in>set xs. x \<in> \<int>" and "\<bar>of_int a\<bar> + sum_list (map abs xs) \<le> (2::rat) ^ 53"
  shows "of_int (foldl (\<lambda>a x. wrap64 (a + \<lfloor>x\<rfloor>)) a xs) = of_int a + sum_list xs"
  using assms
proof (induction xs arbitrary: a)
  case Nil
  then show ?case by simp
next
  case (Cons x xs)
  from Cons.prems obtain j where j: "x = of_int j"
    by (auto elim!: Ints_cases)
  have "\<bar>of_int (a + j) :: rat\<bar> \<le> \<bar>of_int a\<bar> + \<bar>x\<bar>" by (simp add: j)
  also have "\<dots> \<le> \<bar>of_int a\<bar> + sum_list (map abs (x # xs))"
    using sum_list_abs_nonneg [of xs] by simp
  finally have "\<bar>of_int (a + j) :: rat\<bar> \<le> 2 ^ 53" using Cons.prems(2) by simp
  then have "\<bar>a + j\<bar> \<le> 2 ^ 53"
    by (metis of_int_abs of_int_le_iff of_int_numeral of_int_power)
  then have w: "wrap64 (a + j) = a + j" by (rule wrap64_small)
  have "\<bar>of_int (a + j) :: rat\<bar> + sum_list (map abs xs)
          \<le> \<bar>of_int a\<bar> + sum_list (map abs (x # xs))"
    by (simp add: j)
  with Cons.prems(2) have b2: "\<bar>of_int (a + j) :: rat\<bar> + sum_list (map abs xs) \<le> 2 ^ 53"
    by simp
  from Cons.IH [OF _ b2] Cons.prems(1) show ?case by (simp add: j w)
qed

lemma exact_sum_int64_sum: "exact_sum int64_sum"
  unfolding exact_sum_def int64_sum_def
  using int64_fold_exact [of _ 0] by auto

text \<open>
  What \<open>exact_sum\<close> gives for a column: where the cells are integers or missing and their
  absolute values add up to at most \<open>2 ^ 53\<close>, the sum that skips the missing cells is
  the sum of the cells.
\<close>

lemma nansum_exact:
  assumes "exact_sum sm" and "\<forall>v\<in>set vs. skipna v \<in> \<int>"
    and "sum_list (map (\<lambda>v. \<bar>skipna v\<bar>) vs) \<le> 2 ^ 53"
  shows "nansum sm vs = sum_list (map skipna vs)"
proof -
  have "sum_list (map abs (map skipna vs)) \<le> 2 ^ 53"
    using assms(3) by (simp add: comp_def)
  with assms(1,2) show ?thesis
    unfolding nansum_def exact_sum_def by auto
qed

lemma exact_sums_float64_sums: "exact_sums float64_sums"
  by (simp add: exact_sums_def float64_sums_def exact_sum_float64_sum)

lemma exact_sums_sum:
  "exact_sums msum \<Longrightarrow> exact_sum (frame_sum msum k)"
  "exact_sums msum \<Longrightarrow> exact_sum (group_sum msum k)"
  "exact_sums msum \<Longrightarrow> exact_sum (row_sum msum ks)"
  "exact_sums msum \<Longrightarrow> exact_sum (ratio_sum msum)"
  by (simp_all add: exact_sums_def frame_sum_def group_sum_def row_sum_def ratio_sum_def)

section \<open>KPI lookup\<close>

lemma total_row_group:
  "total_row df y c = take 1 (filter (\<lambda>r. group_key r = (c, y)) df)"
proof -
  have "total_row df y c = filter (\<lambda>r. group_key r = (c, y)) (totals df)"
    by (simp add: total_row_def totals_y_def group_key_def conj_commute)
  then show ?thesis by (simp add: group_totals)
qed

lemma totals_example:
  "totals example_df =
     [example_row ''A'' 2019 (Some ''Grand Total'') 5 5 1,
      example_row ''A'' 2020 (Some ''Grand Total'') 60 40 10,
      example_row ''B'' 2020 (Some ''Grand Total'') 7 1 1]"
  by (simp add: totals_def classify_def sort_values_def is_total_row_def group_key_def
        example_df_def example_row_def)

lemma companies_example:
  "companies example_df =
     [example_row ''A'' 2019 (Some ''Bolt'') 5 5 1,
      example_row ''A'' 2020 (Some ''Acme'') 30 20 5,
      example_row ''A'' 2020 None 20 10 3,
      example_row ''A'' 2020 (Some ''Bolt'') 10 10 2,
      example_row ''B'' 2020 (Some ''Acme'') 7 1 1]"
  by (simp add: companies_def classify_def sort_values_def is_total_row_def group_key_def
        example_df_def example_row_def)

text \<open>
  C4. When a total row of the selected country and year exists, the KPI section shows the
  four cells \<open>grand_total\<close>, \<open>volunteers\<close>, \<open>num_events\<close> and
  \<open>grand_total_per_volunteer\<close> of that row; when none exists it shows the warning, which
  is the value \<open>None\<close>, and raises nothing.
\<close>

theorem kpi_lookup:
  "(r \<in> set (totals df) \<and> country r = c \<and> year r = y \<longrightarrow>
      key_indicators df y c =
        Some \<lparr>total_plastic = grand_total r, kpi_volunteers = volunteers r,
              events = num_events r, per_vol = grand_total_per_volunteer r\<rparr>)
   \<and> ((\<forall>r \<in> set (totals df). \<not> (country r = c \<and> year r = y)) \<longrightarrow>
      key_indicators df y c = None)"
proof (intro conjI impI)
  assume a: "r \<in> set (totals df) \<and> country r = c \<and> year r = y"
  then have "r \<in> set (filter (\<lambda>r. group_key r = (c, y)) (totals df))"
    by (simp add: group_key_def)
  then have "r \<in> set (take 1 (filter (\<lambda>r. group_key r = (c, y)) df))"
    by (simp add: group_totals)
  then have "total_row df y c = [r]"
    unfolding total_row_group by (cases "filter (\<lambda>r. group_key r = (c, y)) df") simp_all
  then show "key_indicators df y c =
        Some \<lparr>total_plastic = grand_total r, kpi_volunteers = volunteers r,
              events = num_events r, per_vol = grand_total_per_volunteer r\<rparr>"
    by (simp add: key_indicators_def metrics_def)
next
  assume "\<forall>r \<in> set (totals df). \<not> (country r = c \<and> year r = y)"
  then have "total_row df y c = []"
    by (auto simp: total_row_def totals_y_def filter_empty_conv)
  then show "key_indicators df y c = None"
    by (simp add: key_indicators_def metrics_def)
qed

text \<open>
  The total row of country A in 2020 reports 100 pieces and 10 volunteers; no total row
  exists for country C in 2099.
\<close>

theorem kpi_lookup_witness:
  "key_indicators example_df 2020 ''A''
     = Some \<lparr>total_plastic = Some 100, kpi_volunteers = Some 10, events = Some 1,
             per_vol = Some 10\<rparr>
   \<and> key_indicators example_df 2099 ''C'' = None"
proof -
  have m: "example_row ''A'' 2020 (Some ''Grand Total'') 60 40 10 \<in> set (totals example_df)
         \<and> country (example_row ''A'' 2020 (Some ''Grand Total'') 60 40 10) = ''A''
         \<and> year (example_row ''A'' 2020 (Some ''Grand Total'') 60 40 10) = 2020"
    by (simp add: totals_example) (simp add: example_row_def)
  have n: "\<forall>r \<in> set (totals example_df). \<not> (country r = ''C'' \<and> year r = 2099)"
    by (simp add: totals_example) (simp add: example_row_def)
  from kpi_lookup [of "example_row ''A'' 2020 (Some ''Grand Total'') 60 40 10" example_df "''A''" 2020] m
  have 1: "key_indicators example_df 2020 ''A''
     = Some \<lparr>total_plastic = Some 100, kpi_volunteers = Some 10, events = Some 1,
             per_vol = Some 10\<rparr>"
    by (simp add: example_row_def)
  from kpi_lookup [of "example_row ''A'' 2020 (Some ''Grand Total'') 60 40 10" example_df "''C''" 2099] n
  have 2: "key_indicators example_df 2099 ''C'' = None" by blast
  from 1 2 show ?thesis by simp
qed


section \<open>Composition\<close>

lemma sum_list_other_key:
  "p \<notin> set qs \<Longrightarrow>
     (\<Sum>q\<leftarrow>qs. (if q = p then a else 0) + h q) = (\<Sum>q\<leftarrow>qs. (h q :: rat))"
  by (induction qs) auto

lemma sum_list_one_key:
  "distinct qs \<Longrightarrow> p \<in> set qs \<Longrightarrow>
     (\<Sum>q\<leftarrow>qs. (if q = p then a else 0) + h q) = (a::rat) + (\<Sum>q\<leftarrow>qs. h q)"
  by (induction qs) (auto simp: sum_list_other_key)

text \<open>
  A sum over rows splits into the sums of the groups of a nullable key, one per key of a
  duplicate-free list that holds every key of the rows, and the sum of the rows without
  key.
\<close>

lemma sum_by_key:
  fixes f :: "'r \<Rightarrow> rat" and g :: "'r \<Rightarrow> 'p option"
  assumes "distinct qs" and "\<forall>x\<in>set xs. \<forall>p. g x = Some p \<longrightarrow> p \<in> set qs"
  shows "sum_list (map f xs)
       = (\<Sum>p\<leftarrow>qs. sum_list (map f (filter (\<lambda>r. g r = Some p) xs)))
         + sum_list (map f (filter (\<lambda>r. g r = None) xs))"
  using assms(2)
proof (induction xs)
  case Nil
  then show ?case by simp
next
  case (Cons x xs)
  then have IH: "sum_list (map f xs)
       = (\<Sum>p\<leftarrow>qs. sum_list (map f (filter (\<lambda>r. g r = Some p) xs)))
         + sum_list (map f (filter (\<lambda>r. g r = None) xs))" by simp
  show ?case
  proof (cases "g x")
    case None
    then show ?thesis using IH by simp
  next
    case (Some p)
    with Cons.prems have "p \<in> set qs" by simp
    have "(\<Sum>q\<leftarrow>qs. sum_list (map f (filter (\<lambda>r. g r = Some q) (x # xs))))
        = (\<Sum>q\<leftarrow>qs. (if q = p then f x else 0)
             + sum_list (map f (filter (\<lambda>r. g r = Some q) xs)))"
      using Some by (intro arg_cong [where f = sum_list] map_cong) auto
    also have "\<dots> = f x + (\<Sum>q\<leftarrow>qs. sum_list (map f (filter (\<lambda>r. g r = Some q) xs)))"
      using assms(1) \<open>p \<in> set qs\<close> by (rule sum_list_one_key)
    finally show ?thesis using IH Some by simp
  qed
qed

lemma add_pointwise_map:
  "add_pointwise (map (\<lambda>k. (k, a k)) cols) (map (\<lambda>k. (k, b k)) cols)
     = map (\<lambda>k. (k, a k + b k)) cols"
  unfolding add_pointwise_def by (induction cols) auto

lemma sum_by_company:
  fixes h :: "row \<Rightarrow> rat"
  shows "sum_list (map h rows)
     = (\<Sum>p\<leftarrow>parent_companies_present rows.
          sum_list (map h (filter (\<lambda>r. parent_company r = Some p) rows)))
       + sum_list (map h (filter (\<lambda>r. parent_company r = None) rows))"
proof -
  have d: "distinct (parent_companies_present rows)"
    by (simp add: parent_companies_present_def distinct_unique)
  have m: "\<forall>x\<in>set rows. \<forall>p. parent_company x = Some p
             \<longrightarrow> p \<in> set (parent_companies_present rows)"
    by (force simp: parent_companies_present_def set_unique set_dropna)
  from sum_by_key [OF d m] show ?thesis .
qed

text \<open>
  The sum of a category over any part of rows with integral cells and a column magnitude
  of at most \<open>2 ^ 53\<close> is the sum of the cells.
\<close>

lemma column_sum_exact:
  assumes "exact_sum sm" and "integral_cells rows" and "k \<in> set plastics_cols"
    and "column_magnitude k rows \<le> 2 ^ 53"
  shows "nansum sm (map (cell k) (filter P rows))
       = sum_list (map (\<lambda>r. skipna (cell k r)) (filter P rows))"
proof -
  have i: "\<forall>v\<in>set (map (cell k) (filter P rows)). skipna v \<in> \<int>"
    using assms(2,3) by (auto simp: integral_cells_def)
  have "sum_list (map (\<lambda>r. \<bar>skipna (cell k r)\<bar>) (filter P rows))
          \<le> sum_list (map (\<lambda>r. \<bar>skipna (cell k r)\<bar>) rows)"
    by (rule sum_list_filter_le) simp
  with assms(4) have b: "sum_list (map (\<lambda>v. \<bar>skipna v\<bar>) (map (cell k) (filter P rows))) \<le> 2 ^ 53"
    by (simp add: column_magnitude_def comp_def)
  from nansum_exact [OF assms(1) i b] show ?thesis by (simp add: comp_def)
qed

lemma column_sum_exact_all:
  assumes "exact_sum sm" and "integral_cells rows" and "k \<in> set plastics_cols"
    and "column_magnitude k rows \<le> 2 ^ 53"
  shows "nansum sm (map (cell k) rows) = sum_list (map (\<lambda>r. skipna (cell k r)) rows)"
  using column_sum_exact [OF assms, of "\<lambda>r. True"] by simp

lemma comp_vals_company:
  assumes "p \<in> set (parent_companies_present (companies_yc df y c))" and "p \<noteq> ''All''"
  shows "comp_vals msum df y c p
       = Some (col_sums (frame_sum msum) plastics_cols
                 (filter (\<lambda>r. parent_company r = Some p) (companies_yc df y c)))"
proof -
  from assms(1) obtain r where "r \<in> set (companies_yc df y c)" "parent_company r = Some p"
    by (force simp: parent_companies_present_def set_unique set_dropna)
  then have "filter (\<lambda>r. parent_company r = Some p) (companies_yc df y c) \<noteq> []"
    by (auto simp: filter_empty_conv)
  with assms(2) show ?thesis
    by (simp add: comp_vals_def composition_def comp_for_comp_def)
qed

lemma sum_of_company_compositions_eq:
  assumes "exact_sums msum" and "integral_cells (companies_yc df y c)"
    and "\<forall>k\<in>set plastics_cols. column_magnitude k (companies_yc df y c) \<le> 2 ^ 53"
    and "\<forall>r\<in>set (companies_yc df y c). parent_company r \<noteq> Some ''All''"
  shows "sum_of_company_compositions msum df y c
       = map (\<lambda>k. (k, \<Sum>p\<leftarrow>parent_companies_present (companies_yc df y c).
                        sum_list (map (\<lambda>r. skipna (cell k r))
                          (filter (\<lambda>r. parent_company r = Some p) (companies_yc df y c)))))
           plastics_cols"
proof -
  have na: "p \<noteq> ''All''" if "p \<in> set (parent_companies_present (companies_yc df y c))" for p
    using that assms(4) by (force simp: parent_companies_present_def set_unique set_dropna)
  have "category_value (comp_vals msum df y c p) k
      = sum_list (map (\<lambda>r. skipna (cell k r))
          (filter (\<lambda>r. parent_company r = Some p) (companies_yc df y c)))"
    if "p \<in> set (parent_companies_present (companies_yc df y c))" and "k \<in> set plastics_cols"
    for p k
  proof -
    from assms(3) that(2) have "column_magnitude k (companies_yc df y c) \<le> 2 ^ 53" by simp
    from column_sum_exact [OF exact_sums_sum(1) [OF assms(1)] assms(2) that(2) this]
      that na [OF that(1)]
    show ?thesis
      by (simp add: comp_vals_company category_value_def map_of_col_sums)
  qed
  then show ?thesis
    unfolding sum_of_company_compositions_def
    by (intro map_cong refl arg_cong [where f = sum_list] arg_cong2 [where f = Pair]) auto
qed

lemma companies_yc_example:
  "companies_yc example_df 2020 ''A'' =
     [example_row ''A'' 2020 (Some ''Acme'') 30 20 5,
      example_row ''A'' 2020 None 20 10 3,
      example_row ''A'' 2020 (Some ''Bolt'') 10 10 2]"
  by (simp add: companies_yc_def companies_example) (simp add: example_row_def)

lemma comp_vals_all_example:
  "comp_vals float64_sums example_df 2020 ''A'' ''All'' =
     Some [(C_hdpe, 60), (C_ldpe, 0), (C_o, 0), (C_pet, 0), (C_pp, 0), (C_ps, 40), (C_pvc, 0)]"
  by code_simp

lemma sum_of_company_compositions_example:
  "sum_of_company_compositions float64_sums example_df 2020 ''A'' =
     [(C_hdpe, 40), (C_ldpe, 0), (C_o, 0), (C_pet, 0), (C_pp, 0), (C_ps, 30), (C_pvc, 0)]"
  by code_simp

lemma null_company_sums_example:
  "null_company_sums float64_sums example_df 2020 ''A'' =
     [(C_hdpe, 20), (C_ldpe, 0), (C_o, 0), (C_pet, 0), (C_pp, 0), (C_ps, 10), (C_pvc, 0)]"
  by code_simp

lemma comp_vals_all_example_big:
  "comp_vals float64_sums example_big 2022 ''K'' ''All'' =
     Some [(C_hdpe, 2 ^ 53), (C_ldpe, 1), (C_o, 0), (C_pet, 0), (C_pp, 0), (C_ps, 0),
           (C_pvc, 0)]"
  by code_simp

lemma sum_of_company_compositions_example_big:
  "sum_of_company_compositions float64_sums example_big 2022 ''K'' =
     [(C_hdpe, 2 ^ 53 + 1), (C_ldpe, 1), (C_o, 0), (C_pet, 0), (C_pp, 0), (C_ps, 0),
      (C_pvc, 0)]"
  by code_simp

text \<open>
  C5, as the claim states it, fails: in the sample table a company row of country A in
  2020 names no parent company. It is part of the composition of \<open>All\<close> (60 pieces of
  hdpe) and of no company's composition (40 pieces in sum).
\<close>

theorem composition_all_counterexample:
  "comp_vals float64_sums example_df 2020 ''A'' ''All''
     \<noteq> Some (sum_of_company_compositions float64_sums example_df 2020 ''A'')"
  by (simp add: comp_vals_all_example sum_of_company_compositions_example)

text \<open>
  It fails as well where every company row names a parent company, once a sum rounds: in
  binary64 the hdpe cells \<open>2 ^ 53\<close> of company X and 1 of company Y add up to
  \<open>2 ^ 53\<close> in the composition of \<open>All\<close>, and the two compositions to \<open>2 ^ 53 + 1\<close>.
\<close>

lemma composition_all_rounds:
  "comp_vals float64_sums example_big 2022 ''K'' ''All''
     \<noteq> Some (sum_of_company_compositions float64_sums example_big 2022 ''K'')"
  by (simp add: comp_vals_all_example_big sum_of_company_compositions_example_big)

text \<open>
  C5, amended. Let the category cells of the company rows of the selected country and
  year be integers or missing, let the absolute values of each category add up to at
  most \<open>2 ^ 53\<close>, so that no sum rounds or wraps, and let none of the rows be named
  \<open>All\<close>. Then the composition of \<open>All\<close> is, category by category, the sum of the
  compositions of the distinct parent companies of those rows plus the sums over the
  rows that name no parent company; so it is the sum of the per-company compositions when
  every company row names a parent company. Without company rows there is no chart.
\<close>

theorem composition_all_is_company_sum_plus_null_rows:
  assumes "exact_sums msum" and "integral_cells (companies_yc df y c)"
    and "\<forall>k\<in>set plastics_cols. column_magnitude k (companies_yc df y c) \<le> 2 ^ 53"
    and "\<forall>r\<in>set (companies_yc df y c). parent_company r \<noteq> Some ''All''"
  shows "comp_vals msum df y c ''All''
       = (if companies_yc df y c = [] then None
          else Some (add_pointwise (sum_of_company_compositions msum df y c)
                       (null_company_sums msum df y c)))
       \<and> (companies_yc df y c \<noteq> []
            \<and> (\<forall>r\<in>set (companies_yc df y c). parent_company r \<noteq> None)
          \<longrightarrow> comp_vals msum df y c ''All''
                = Some (sum_of_company_compositions msum df y c))"
proof -
  have a: "col_sums (frame_sum msum) plastics_cols (companies_yc df y c)
      = map (\<lambda>k. (k, sum_list (map (\<lambda>r. skipna (cell k r)) (companies_yc df y c))))
          plastics_cols"
    unfolding col_sums_def using assms(3)
    by (intro map_cong refl arg_cong2 [where f = Pair])
       (simp add: column_sum_exact_all [OF exact_sums_sum(1) [OF assms(1)] assms(2)])
  have n: "null_company_sums msum df y c
      = map (\<lambda>k. (k, sum_list (map (\<lambda>r. skipna (cell k r))
                 (filter (\<lambda>r. parent_company r = None) (companies_yc df y c)))))
          plastics_cols"
    unfolding null_company_sums_def col_sums_def using assms(3)
    by (intro map_cong refl arg_cong2 [where f = Pair])
       (simp add: column_sum_exact [OF exact_sums_sum(1) [OF assms(1)] assms(2)])
  have e: "col_sums (frame_sum msum) plastics_cols (companies_yc df y c)
      = add_pointwise (sum_of_company_compositions msum df y c) (null_company_sums msum df y c)"
    unfolding a n sum_of_company_compositions_eq [OF assms]
    by (simp add: add_pointwise_map sum_by_company [symmetric])
  have 1: "comp_vals msum df y c ''All''
       = (if companies_yc df y c = [] then None
          else Some (add_pointwise (sum_of_company_compositions msum df y c)
                       (null_company_sums msum df y c)))"
    using e by (simp add: comp_vals_def composition_def comp_for_comp_def)
  have 2: "comp_vals msum df y c ''All'' = Some (sum_of_company_compositions msum df y c)"
    if ne: "companies_yc df y c \<noteq> []"
      and nn: "\<forall>r\<in>set (companies_yc df y c). parent_company r \<noteq> None"
  proof -
    from nn have "filter (\<lambda>r. parent_company r = None) (companies_yc df y c) = []"
      by (auto simp: filter_empty_conv)
    then have "null_company_sums msum df y c = map (\<lambda>k. (k, 0)) plastics_cols"
      unfolding n by simp
    then have "add_pointwise (sum_of_company_compositions msum df y c)
                 (null_company_sums msum df y c)
        = sum_of_company_compositions msum df y c"
      unfolding sum_of_company_compositions_eq [OF assms]
      by (simp add: add_pointwise_map)
    with 1 ne show ?thesis by simp
  qed
  from 1 2 show ?thesis by blast
qed

text \<open>
  Country A of the sample table in 2020, added in binary64: 60 pieces of hdpe in all, 40
  of them of Acme and Bolt and 20 of the row without parent company.
\<close>

theorem composition_all_is_company_sum_plus_null_rows_witness:
  "exact_sums float64_sums
   \<and> integral_cells (companies_yc example_df 2020 ''A'')
   \<and> comp_vals float64_sums example_df 2020 ''A'' ''All''
     = Some (add_pointwise
         [(C_hdpe, 40), (C_ldpe, 0), (C_o, 0), (C_pet, 0), (C_pp, 0), (C_ps, 30), (C_pvc, 0)]
         [(C_hdpe, 20), (C_ldpe, 0), (C_o, 0), (C_pet, 0), (C_pp, 0), (C_ps, 10), (C_pvc, 0)])"
proof -
  have i: "integral_cells (companies_yc example_df 2020 ''A'')"
    by (simp add: integral_cells_def companies_yc_example plastics_cols_def)
       (simp add: example_row_def)
  have b: "\<forall>k\<in>set plastics_cols. column_magnitude k (companies_yc example_df 2020 ''A'')
             \<le> 2 ^ 53"
    by (simp add: column_magnitude_def companies_yc_example plastics_cols_def)
       (simp add: example_row_def)
  have h: "\<forall>r\<in>set (companies_yc example_df 2020 ''A''). parent_company r \<noteq> Some ''All''"
    by (simp add: companies_yc_example) (simp add: example_row_def)
  have e: "companies_yc example_df 2020 ''A'' \<noteq> []"
    by (simp add: companies_yc_example)
  from composition_all_is_company_sum_plus_null_rows [OF exact_sums_float64_sums i b h] e
  have "comp_vals float64_sums example_df 2020 ''A'' ''All''
     = Some (add_pointwise
         [(C_hdpe, 40), (C_ldpe, 0), (C_o, 0), (C_pet, 0), (C_pp, 0), (C_ps, 30), (C_pvc, 0)]
         [(C_hdpe, 20), (C_ldpe, 0), (C_o, 0), (C_pet, 0), (C_pp, 0), (C_ps, 10), (C_pvc, 0)])"
    by (simp add: sum_of_company_compositions_example null_company_sums_example)
  with exact_sums_float64_sums i show ?thesis by simp
qed

section \<open>Trends\<close>

text \<open>
  The frame \<open>trend\<close> for rows that are not empty: no label is missing, and each total is
  the library's sum of the group sums of its columns.
\<close>

lemma trend_of_rows:
  assumes "rows \<noteq> []"
  shows "trend_of msum rows
       = Inr (Some (map (\<lambda>y. \<lparr>t_year = y,
                t_sums = col_sums (group_sum msum) (recyclable @ non_recyclable)
                           (filter (\<lambda>r. year r = y) rows),
                Recyclable = row_sum msum recyclable (map (\<lambda>k.
                   nansum (group_sum msum k) (map (cell k) (filter (\<lambda>r. year r = y) rows)))
                     recyclable),
                Non_Recyclable = row_sum msum non_recyclable (map (\<lambda>k.
                   nansum (group_sum msum k) (map (cell k) (filter (\<lambda>r. year r = y) rows)))
                     non_recyclable)\<rparr>)
              (sort (unique (map year rows)))))"
proof -
  define ys where "ys = sort (unique (map year rows))"
  have a: "sum_axis1_col msum recyclable
             (groupby_year_sum msum (recyclable @ non_recyclable) rows)
         = Inr (map (\<lambda>y. row_sum msum recyclable (map (\<lambda>k.
                   nansum (group_sum msum k) (map (cell k) (filter (\<lambda>r. year r = y) rows)))
                     recyclable)) ys)"
    unfolding groupby_year_sum_def ys_def by (rule sum_axis1_col_groups) simp
  have b: "sum_axis1_col msum non_recyclable
             (groupby_year_sum msum (recyclable @ non_recyclable) rows)
         = Inr (map (\<lambda>y. row_sum msum non_recyclable (map (\<lambda>k.
                   nansum (group_sum msum k) (map (cell k) (filter (\<lambda>r. year r = y) rows)))
                     non_recyclable)) ys)"
    unfolding groupby_year_sum_def ys_def by (rule sum_axis1_col_groups) simp
  show ?thesis
    using assms unfolding trend_of_def Let_def a b
    by (simp add: trend_rows_def groupby_year_sum_def ys_def [symmetric] zip_map_map
          zip_same_conv_map comp_def)
qed

lemma column_magnitude_nonneg: "0 \<le> column_magnitude k rows"
  unfolding column_magnitude_def by (rule sum_list_nonneg) auto

lemma column_magnitude_le_magnitude:
  "k \<in> set plastics_cols \<Longrightarrow> column_magnitude k rows \<le> magnitude rows"
  using column_magnitude_nonneg [of _ rows]
  by (auto simp: magnitude_def plastics_cols_def intro: add_increasing add_increasing2)

lemma column_magnitude_filter_le:
  "column_magnitude k (filter P rows) \<le> column_magnitude k rows"
  unfolding column_magnitude_def by (rule sum_list_filter_le) simp

lemma magnitude_filter_le: "magnitude (filter P rows) \<le> magnitude rows"
  unfolding magnitude_def plastics_cols_def
  by (simp add: add_mono column_magnitude_filter_le)

lemma integral_cells_filter: "integral_cells rows \<Longrightarrow> integral_cells (filter P rows)"
  by (simp add: integral_cells_def)

lemma column_sum_bound:
  "\<bar>sum_list (map (\<lambda>r. skipna (cell k r)) rows)\<bar> \<le> column_magnitude k rows"
  using sum_list_abs_bound [of "map (\<lambda>r. skipna (cell k r)) rows"]
  by (simp add: column_magnitude_def comp_def)

lemma column_sum_Ints:
  "integral_cells rows \<Longrightarrow> k \<in> set plastics_cols
     \<Longrightarrow> sum_list (map (\<lambda>r. skipna (cell k r)) rows) \<in> \<int>"
  by (rule sum_list_Ints) (auto simp: integral_cells_def)

text \<open>
  For the rows of one year with integral cells and a magnitude of at most \<open>2 ^ 53\<close>,
  the group sums and the two totals of the year are the sums of the cells.
\<close>

lemma year_totals_exact:
  assumes "exact_sums msum" and "integral_cells rows" and "magnitude rows \<le> 2 ^ 53"
  shows "\<forall>k\<in>set plastics_cols.
           nansum (group_sum msum k) (map (cell k) rows)
             = sum_list (map (\<lambda>r. skipna (cell k r)) rows)"
    and "row_sum msum recyclable
           (map (\<lambda>k. nansum (group_sum msum k) (map (cell k) rows)) recyclable)
           = (\<Sum>k\<leftarrow>recyclable. sum_list (map (\<lambda>r. skipna (cell k r)) rows))"
    and "row_sum msum non_recyclable
           (map (\<lambda>k. nansum (group_sum msum k) (map (cell k) rows)) non_recyclable)
           = (\<Sum>k\<leftarrow>non_recyclable. sum_list (map (\<lambda>r. skipna (cell k r)) rows))"
proof -
  let ?E = "\<lambda>k. sum_list (map (\<lambda>r. skipna (cell k r)) rows)"
  show c: "\<forall>k\<in>set plastics_cols. nansum (group_sum msum k) (map (cell k) rows) = ?E k"
  proof
    fix k assume k: "k \<in> set plastics_cols"
    from column_magnitude_le_magnitude [OF k, of rows] assms(3)
    have "column_magnitude k rows \<le> 2 ^ 53" by simp
    from column_sum_exact_all [OF exact_sums_sum(2) [OF assms(1)] assms(2) k this]
    show "nansum (group_sum msum k) (map (cell k) rows) = ?E k" .
  qed
  have ex: "row_sum msum js (map ?E ks) = sum_list (map ?E ks)"
    if "set ks \<subseteq> set plastics_cols"
      and "sum_list (map (\<lambda>k. column_magnitude k rows) ks) \<le> magnitude rows" for js ks
  proof -
    have i: "\<forall>x\<in>set (map ?E ks). x \<in> \<int>"
      using that(1) column_sum_Ints [OF assms(2)] by auto
    have "sum_list (map abs (map ?E ks)) \<le> sum_list (map (\<lambda>k. column_magnitude k rows) ks)"
      unfolding map_map comp_def by (rule sum_list_mono) (rule column_sum_bound)
    with that(2) assms(3) have "sum_list (map abs (map ?E ks)) \<le> 2 ^ 53" by simp
    with exact_sums_sum(3) [OF assms(1), of js] i show ?thesis
      unfolding exact_sum_def by blast
  qed
  have r: "sum_list (map (\<lambda>k. column_magnitude k rows) recyclable) \<le> magnitude rows"
    using column_magnitude_nonneg [of _ rows]
    by (simp add: magnitude_def plastics_cols_def recyclable_def add_increasing2)
  have n: "sum_list (map (\<lambda>k. column_magnitude k rows) non_recyclable) \<le> magnitude rows"
    using column_magnitude_nonneg [of _ rows]
    by (simp add: magnitude_def plastics_cols_def non_recyclable_def add_increasing
          add_increasing2)
  have "map (\<lambda>k. nansum (group_sum msum k) (map (cell k) rows)) recyclable
      = map ?E recyclable"
    using c by (simp add: recyclable_def plastics_cols_def)
  moreover have "row_sum msum recyclable (map ?E recyclable) = sum_list (map ?E recyclable)"
    by (rule ex [OF _ r]) (simp add: recyclable_def plastics_cols_def)
  ultimately show "row_sum msum recyclable
          (map (\<lambda>k. nansum (group_sum msum k) (map (cell k) rows)) recyclable)
          = sum_list (map ?E recyclable)"
    by (simp only:)
  have "map (\<lambda>k. nansum (group_sum msum k) (map (cell k) rows)) non_recyclable
      = map ?E non_recyclable"
    using c by (simp add: non_recyclable_def plastics_cols_def)
  moreover have "row_sum msum non_recyclable (map ?E non_recyclable)
      = sum_list (map ?E non_recyclable)"
    by (rule ex [OF _ n]) (simp add: non_recyclable_def plastics_cols_def)
  ultimately show "row_sum msum non_recyclable
          (map (\<lambda>k. nansum (group_sum msum k) (map (cell k) rows)) non_recyclable)
          = sum_list (map ?E non_recyclable)"
    by (simp only:)
qed

lemma comp_country_all_years_example:
  "comp_country_all_years example_df ''A'' =
     [example_row ''A'' 2019 (Some ''Bolt'') 5 5 1,
      example_row ''A'' 2020 (Some ''Acme'') 30 20 5,
      example_row ''A'' 2020 None 20 10 3,
      example_row ''A'' 2020 (Some ''Bolt'') 10 10 2]"
  by (simp add: comp_country_all_years_def companies_example) (simp add: example_row_def)

lemma trend_example_big:
  "trend float64_sums example_big_totals ''K'' = Inr (Some
     [\<lparr>t_year = 2022,
        t_sums = [(C_hdpe, 2 ^ 53), (C_ldpe, 1), (C_pet, 1), (C_pp, 1), (C_ps, 1), (C_pvc, 1),
                  (C_o, 1)],
        Recyclable = 2 ^ 53, Non_Recyclable = 3\<rparr>])"
  by code_simp

lemma trend_types_example_big:
  "trend_types float64_sums example_big_totals ''K'' = Some
     [(2022, [(C_hdpe, 2 ^ 53), (C_ldpe, 1), (C_o, 1), (C_pet, 1), (C_pp, 1), (C_ps, 1),
              (C_pvc, 1)])]"
  by code_simp

text \<open>
  C6, as the claim states it, fails where a total rounds. In the table for the totals
  the seven category sums of country K in 2022 are \<open>2 ^ 53\<close> pieces of hdpe and one
  piece of each other category, \<open>2 ^ 53 + 6\<close> pieces in all. In binary64 the Recyclable
  total is \<open>2 ^ 53\<close>, the three pieces beside the hdpe being lost one by one, and the
  Non-Recyclable total is 3: the two add up to \<open>2 ^ 53 + 3\<close>, not to the sum of the
  seven category sums. The two sides differ as well when each is added in binary64:
  the two totals then give \<open>2 ^ 53 + 4\<close>, the seven category sums \<open>2 ^ 53\<close>.
\<close>

theorem trend_totals_counterexample:
  "trend float64_sums example_big_totals ''K'' = Inr (Some
     [\<lparr>t_year = 2022,
        t_sums = [(C_hdpe, 2 ^ 53), (C_ldpe, 1), (C_pet, 1), (C_pp, 1), (C_ps, 1), (C_pvc, 1),
                  (C_o, 1)],
        Recyclable = 2 ^ 53, Non_Recyclable = 3\<rparr>])
   \<and> trend_types float64_sums example_big_totals ''K'' = Some
     [(2022, [(C_hdpe, 2 ^ 53), (C_ldpe, 1), (C_o, 1), (C_pet, 1), (C_pp, 1), (C_ps, 1),
              (C_pvc, 1)])]
   \<and> (2 ^ 53 + 3 :: rat)
       \<noteq> sum_list (map snd [(C_hdpe, 2 ^ 53), (C_ldpe, 1), (C_o, 1), (C_pet, 1), (C_pp, 1),
                             (C_ps, 1), (C_pvc, 1 :: rat)])
   \<and> float64_round (2 ^ 53 + 3)
       \<noteq> float64_sum (map snd [(C_hdpe, 2 ^ 53), (C_ldpe, 1), (C_o, 1), (C_pet, 1), (C_pp, 1),
                                (C_ps, 1), (C_pvc, 1 :: rat)])"
proof -
  have a: "(2 ^ 53 + 3 :: rat)
       \<noteq> sum_list (map snd [(C_hdpe, 2 ^ 53), (C_ldpe, 1), (C_o, 1), (C_pet, 1), (C_pp, 1),
                             (C_ps, 1), (C_pvc, 1 :: rat)])"
    by simp
  have b: "float64_round (2 ^ 53 + 3)
       \<noteq> float64_sum (map snd [(C_hdpe, 2 ^ 53), (C_ldpe, 1), (C_o, 1), (C_pet, 1), (C_pp, 1),
                                (C_ps, 1), (C_pvc, 1 :: rat)])"
    by code_simp
  from trend_example_big trend_types_example_big a b show ?thesis by (intro conjI)
qed

text \<open>
  C6, amended. Let the category cells of the company rows of the selected country be
  integers or missing, and let their absolute values add up to at most \<open>2 ^ 53\<close> in
  every year, so that no sum rounds or wraps. Then the two trend frames have the same
  years, each once, and in every year the Recyclable total plus the Non-Recyclable total
  of the first frame is the sum of the seven category sums of the second. Neither frame
  is built when the country has no company row, and no label is missing when it has;
  this part needs no condition on the cells.
\<close>

theorem trend_totals_match_category_sums:
  assumes "exact_sums msum" and "integral_cells (comp_country_all_years df c)"
    and "\<forall>y. magnitude (filter (\<lambda>r. year r = y) (comp_country_all_years df c)) \<le> 2 ^ 53"
  shows "(comp_country_all_years df c = []
            \<longrightarrow> trend msum df c = Inr None \<and> trend_types msum df c = None)
   \<and> (comp_country_all_years df c \<noteq> [] \<longrightarrow>
        (\<exists>ts gs. trend msum df c = Inr (Some ts) \<and> trend_types msum df c = Some gs
           \<and> distinct (map fst gs)
           \<and> list_all2 (\<lambda>t g. t_year t = fst g
                  \<and> Recyclable t + Non_Recyclable t = sum_list (map snd (snd g))) ts gs))"
proof (cases "comp_country_all_years df c = []")
  case True
  then show ?thesis
    by (simp add: trend_def trend_of_def trend_types_def trend_types_of_def)
next
  case ne: False
  define xs where "xs = comp_country_all_years df c"
  have t: "trend msum df c = trend_of msum xs"
    by (simp add: trend_def xs_def)
  have g: "trend_types msum df c = Some (groupby_year_sum msum plastics_cols xs)"
    using ne by (simp add: trend_types_def trend_types_of_def xs_def)
  have d: "distinct (map fst (groupby_year_sum msum plastics_cols xs))"
    by (simp add: groupby_year_sum_def comp_def distinct_unique)
  have y: "row_sum msum recyclable (map (\<lambda>k.
             nansum (group_sum msum k) (map (cell k) (filter (\<lambda>r. year r = y) xs)))
               recyclable)
         + row_sum msum non_recyclable (map (\<lambda>k.
             nansum (group_sum msum k) (map (cell k) (filter (\<lambda>r. year r = y) xs)))
               non_recyclable)
         = sum_list (map snd (col_sums (group_sum msum) plastics_cols
                                 (filter (\<lambda>r. year r = y) xs)))"
    for y
  proof -
    have i: "integral_cells (filter (\<lambda>r. year r = y) xs)"
      using assms(2) unfolding xs_def by (rule integral_cells_filter)
    have m: "magnitude (filter (\<lambda>r. year r = y) xs) \<le> 2 ^ 53"
      using assms(3) by (simp add: xs_def)
    from year_totals_exact [OF assms(1) i m] show ?thesis
      by (simp add: col_sums_def recyclable_def non_recyclable_def plastics_cols_def)
  qed
  have l: "list_all2 (\<lambda>t g. t_year t = fst g
                  \<and> Recyclable t + Non_Recyclable t = sum_list (map snd (snd g)))
             (map (\<lambda>y. \<lparr>t_year = y,
                t_sums = col_sums (group_sum msum) (recyclable @ non_recyclable)
                           (filter (\<lambda>r. year r = y) xs),
                Recyclable = row_sum msum recyclable (map (\<lambda>k.
                   nansum (group_sum msum k) (map (cell k) (filter (\<lambda>r. year r = y) xs)))
                     recyclable),
                Non_Recyclable = row_sum msum non_recyclable (map (\<lambda>k.
                   nansum (group_sum msum k) (map (cell k) (filter (\<lambda>r. year r = y) xs)))
                     non_recyclable)\<rparr>)
              (sort (unique (map year xs))))
             (groupby_year_sum msum plastics_cols xs)"
    unfolding groupby_year_sum_def
    by (simp add: list_all2_map1 list_all2_map2 list_all2_same y)
  from ne have "xs \<noteq> []" by (simp add: xs_def)
  from t g d l trend_of_rows [OF this, of msum]
  have "\<exists>ts gs. trend msum df c = Inr (Some ts) \<and> trend_types msum df c = Some gs
           \<and> distinct (map fst gs)
           \<and> list_all2 (\<lambda>t g. t_year t = fst g
                  \<and> Recyclable t + Non_Recyclable t = sum_list (map snd (snd g))) ts gs"
    by auto
  with ne show ?thesis by simp
qed

text \<open>
  Country A of the sample table, added in binary64: 5 + 5 pieces in 2019 and 60 + 40 in
  2020.
\<close>

theorem trend_totals_match_category_sums_witness:
  "exact_sums float64_sums
   \<and> integral_cells (comp_country_all_years example_df ''A'')
   \<and> magnitude (comp_country_all_years example_df ''A'') \<le> 2 ^ 53
   \<and> comp_country_all_years example_df ''A'' \<noteq> []
   \<and> (\<exists>ts gs. trend float64_sums example_df ''A'' = Inr (Some ts)
         \<and> trend_types float64_sums example_df ''A'' = Some gs
         \<and> map t_year ts = [2019, 2020]
         \<and> map (\<lambda>t. Recyclable t + Non_Recyclable t) ts = [10, 100]
         \<and> list_all2 (\<lambda>t g. t_year t = fst g
               \<and> Recyclable t + Non_Recyclable t = sum_list (map snd (snd g))) ts gs)"
proof -
  have ne: "comp_country_all_years example_df ''A'' \<noteq> []"
    by (simp add: comp_country_all_years_example)
  have i: "integral_cells (comp_country_all_years example_df ''A'')"
    by (simp add: integral_cells_def comp_country_all_years_example plastics_cols_def)
       (simp add: example_row_def)
  have m: "magnitude (comp_country_all_years example_df ''A'') \<le> 2 ^ 53"
    by (simp add: magnitude_def column_magnitude_def comp_country_all_years_example
          plastics_cols_def) (simp add: example_row_def)
  have b: "\<forall>y. magnitude (filter (\<lambda>r. year r = y) (comp_country_all_years example_df ''A''))
             \<le> 2 ^ 53"
    using magnitude_filter_le [of _ "comp_country_all_years example_df ''A''"] m
    by (meson order_trans)
  have t: "trend float64_sums example_df ''A'' = Inr (Some
       [\<lparr>t_year = 2019,
          t_sums = [(C_hdpe, 5), (C_ldpe, 0), (C_pet, 0), (C_pp, 0), (C_ps, 5), (C_pvc, 0),
                    (C_o, 0)],
          Recyclable = 5, Non_Recyclable = 5\<rparr>,
        \<lparr>t_year = 2020,
          t_sums = [(C_hdpe, 60), (C_ldpe, 0), (C_pet, 0), (C_pp, 0), (C_ps, 40), (C_pvc, 0),
                    (C_o, 0)],
          Recyclable = 60, Non_Recyclable = 40\<rparr>])"
    by code_simp
  from trend_totals_match_category_sums [OF exact_sums_float64_sums i b] ne
  obtain ts gs where *: "trend float64_sums example_df ''A'' = Inr (Some ts)"
      "trend_types float64_sums example_df ''A'' = Some gs"
      "list_all2 (\<lambda>t g. t_year t = fst g
               \<and> Recyclable t + Non_Recyclable t = sum_list (map snd (snd g))) ts gs"
    by blast
  from *(1) t have v: "map t_year ts = [2019, 2020]"
    "map (\<lambda>t. Recyclable t + Non_Recyclable t) ts = [10, 100]" by auto
  have "\<exists>ts gs. trend float64_sums example_df ''A'' = Inr (Some ts)
         \<and> trend_types float64_sums example_df ''A'' = Some gs
         \<and> map t_year ts = [2019, 2020]
         \<and> map (\<lambda>t. Recyclable t + Non_Recyclable t) ts = [10, 100]
         \<and> list_all2 (\<lambda>t g. t_year t = fst g
               \<and> Recyclable t + Non_Recyclable t = sum_list (map snd (snd g))) ts gs"
    by (intro conjI exI [of _ ts] exI [of _ gs]) (fact * v)+
  with exact_sums_float64_sums i m ne show ?thesis by (intro conjI)
qed

section \<open>Top 10 parent companies\<close>

lemma descending_sort_values_desc: "descending sort_values_desc"
proof -
  have "sorted_wrt (\<lambda>a b. snd b \<le> snd a) (rev (sort_key snd (rev xs)))" for xs :: ranking
  proof -
    have "sorted (map snd (sort_key snd (rev xs)))" by simp
    then have "sorted_wrt (\<lambda>a b. snd a \<le> snd b) (sort_key snd (rev xs))"
      by (simp add: sorted_map)
    then show ?thesis by (simp add: sorted_wrt_rev)
  qed
  then show ?thesis by (simp add: descending_def sort_values_desc_def)
qed

lemma descending_set: "descending srt \<Longrightarrow> set (srt xs) = set xs"
  by (metis descending_def set_mset_mset)

lemma descending_length: "descending srt \<Longrightarrow> length (srt xs) = length xs"
  by (metis descending_def size_mset)

lemma sorted_wrt_take: "sorted_wrt P xs \<Longrightarrow> sorted_wrt P (take n xs)"
  by (metis append_take_drop_id sorted_wrt_append)

lemma length_groupby_parent_company_sum:
  "length (groupby_parent_company_sum msum rows)
     = card {p. \<exists>r\<in>set rows. parent_company r = Some p}"
proof -
  have "length (groupby_parent_company_sum msum rows)
      = card (set (unique (filter (\<lambda>p. p \<noteq> None) (map parent_company rows))))"
    by (simp add: groupby_parent_company_sum_def distinct_card distinct_unique)
  also have "set (unique (filter (\<lambda>p. p \<noteq> None) (map parent_company rows)))
      = Some ` {p. \<exists>r\<in>set rows. parent_company r = Some p}"
    by (force simp: set_unique image_iff)
  also have "card \<dots> = card {p. \<exists>r\<in>set rows. parent_company r = Some p}"
    by (simp add: card_image)
  finally show ?thesis .
qed

lemma groupby_parent_company_sum_member:
  "a \<in> set (groupby_parent_company_sum msum rows) \<Longrightarrow>
     fst a \<noteq> None \<and>
     snd a = nansum (ratio_sum msum) (map grand_total_per_volunteer
                (filter (\<lambda>r. parent_company r = fst a) rows))"
  by (auto simp: groupby_parent_company_sum_def set_unique)

lemma top10_member:
  assumes "descending srt" and "a \<in> set (top10 msum srt df y)"
  shows "a \<in> set (groupby_parent_company_sum msum (companies_y df y))"
proof -
  from assms(2) have "a \<in> set (srt (groupby_parent_company_sum msum (companies_y df y)))"
    unfolding top10_def top10_of_def by (rule in_set_takeD)
  then show ?thesis by (simp add: descending_set [OF assms(1)])
qed

text \<open>Removing the rows without parent company changes no group and no sum.\<close>

lemma groupby_ignores_null_rows:
  "groupby_parent_company_sum msum (filter (\<lambda>r. parent_company r \<noteq> None) rows)
     = groupby_parent_company_sum msum rows"
proof -
  have k: "filter (\<lambda>p. p \<noteq> None)
             (map parent_company (filter (\<lambda>r. parent_company r \<noteq> None) rows))
         = filter (\<lambda>p. p \<noteq> None) (map parent_company rows)"
    by (induction rows) auto
  have f: "filter (\<lambda>r. parent_company r = p) (filter (\<lambda>r. parent_company r \<noteq> None) rows)
         = filter (\<lambda>r. parent_company r = p) rows" if "p \<noteq> None" for p
    using that by (induction rows) auto
  have "nansum (ratio_sum msum) (map grand_total_per_volunteer
            (filter (\<lambda>r. parent_company r = p)
               (filter (\<lambda>r. parent_company r \<noteq> None) rows)))
      = nansum (ratio_sum msum) (map grand_total_per_volunteer (filter (\<lambda>r. parent_company r = p) rows))"
    if "p \<in> set (sort (unique (filter (\<lambda>p. p \<noteq> None) (map parent_company rows))))" for p
  proof -
    from that have "p \<noteq> None" by (simp add: set_unique)
    from f [OF this] show ?thesis by (rule arg_cong)
  qed
  then show ?thesis
    unfolding groupby_parent_company_sum_def k
    by (intro map_cong refl) (simp only:)
qed

text \<open>
  The company rows of a year are named by the year, so that what is proved of the ranking
  is stated on the rows of the classified table whose year is the selected one.
\<close>

lemma companies_of_year:
  "{p. \<exists>r\<in>set (companies_y df y). parent_company r = Some p}
     = {p. \<exists>r\<in>set (companies df). year r = y \<and> parent_company r = Some p}"
  by (auto simp: companies_y_def)

lemma filter_companies_of_year:
  "filter (\<lambda>r. parent_company r = p) (companies_y df y)
     = filter (\<lambda>r. year r = y \<and> parent_company r = p) (companies df)"
  by (simp add: companies_y_def conj_commute)

lemma distinct_groupby_parent_company_sum:
  "distinct (map fst (groupby_parent_company_sum msum rows))"
  by (simp add: groupby_parent_company_sum_def comp_def distinct_unique)

lemma descending_distinct:
  assumes "descending srt" and "distinct (map fst xs)"
  shows "distinct (map fst (srt xs))"
proof -
  from assms(1) have "mset (map fst (srt xs)) = mset (map fst xs)"
    by (simp add: descending_def)
  from mset_eq_imp_distinct_iff [OF this] assms(2) show ?thesis by simp
qed

lemma group_of_company:
  assumes "r \<in> set rows" and "parent_company r = Some p"
  shows "(Some p, nansum (ratio_sum msum) (map grand_total_per_volunteer
                     (filter (\<lambda>r. parent_company r = Some p) rows)))
           \<in> set (groupby_parent_company_sum msum rows)"
proof -
  from assms have "Some p \<in> set (map parent_company rows)" by force
  then have "Some p \<in> set (sort (unique (filter (\<lambda>p. p \<noteq> None) (map parent_company rows))))"
    by (simp add: set_unique)
  then show ?thesis unfolding groupby_parent_company_sum_def by force
qed

text \<open>A group that the ranking leaves out has a sum no greater than any ranked one.\<close>

lemma top10_of_greatest:
  assumes "descending srt" and "b \<in> set (groupby_parent_company_sum msum rows)"
    and "b \<notin> set (top10_of msum srt rows)" and "a \<in> set (top10_of msum srt rows)"
  shows "snd b \<le> snd a"
proof -
  define xs where "xs = srt (groupby_parent_company_sum msum rows)"
  have s: "sorted_wrt (\<lambda>a b. snd b \<le> snd a) (take 10 xs @ drop 10 xs)"
    using assms(1) by (simp add: descending_def xs_def)
  from assms(2) have "b \<in> set xs" by (simp add: xs_def descending_set [OF assms(1)])
  then have "b \<in> set (take 10 xs) \<or> b \<in> set (drop 10 xs)"
    by (metis Un_iff append_take_drop_id set_append)
  with assms(3) have b: "b \<in> set (drop 10 xs)" by (simp add: top10_of_def xs_def)
  from assms(4) have a: "a \<in> set (take 10 xs)" by (simp add: top10_of_def xs_def)
  from s a b show ?thesis unfolding sorted_wrt_append by blast
qed

lemma top10_example:
  "top10 float64_sums sort_values_desc example_df 2020
     = [(Some ''Acme'', 6), (Some ''Bolt'', 2)]"
  by code_simp

lemma top10_example_2019:
  "top10 float64_sums sort_values_desc example_df 2019 = [(Some ''Bolt'', 1)]"
  by code_simp

lemma top10_example_many:
  "map snd (top10 float64_sums sort_values_desc example_many 2021)
     = [12, 11, 10, 9, 8, 7, 6, 5, 4, 3]"
  by code_simp

lemma groups_example_many:
  "length (groupby_parent_company_sum float64_sums (companies_y example_many 2021)) = 12"
  by code_simp

text \<open>
  C7. Whatever descending sort and whatever sum the library uses, the ranking of a
  selected year has at most 10 pairs and at most as many as the company rows of the
  classified table whose year is the selected one name distinct parent companies: it
  has 10 pairs, or one for each of those companies when they are fewer. No parent
  company has two pairs, and each pair names a parent company of a company row of that
  year, with the library's sum of \<open>grand_total_per_volunteer\<close> over the company rows of
  that year with that parent company as its second component. The pairs are in
  descending order of the second components, and a parent company of that year that
  the ranking leaves out has a sum no greater than any ranked one.
\<close>

theorem top10_bounded_and_descending:
  assumes "descending srt"
  shows "length (top10 msum srt df y) \<le> 10
       \<and> length (top10 msum srt df y)
           \<le> card {p. \<exists>r\<in>set (companies df). year r = y \<and> parent_company r = Some p}
       \<and> length (top10 msum srt df y)
           = min 10 (card {p. \<exists>r\<in>set (companies df). year r = y \<and> parent_company r = Some p})
       \<and> distinct (map fst (top10 msum srt df y))
       \<and> sorted_wrt (\<lambda>a b. snd b \<le> snd a) (top10 msum srt df y)
       \<and> (\<forall>a\<in>set (top10 msum srt df y).
             (\<exists>r\<in>set (companies df). year r = y \<and> parent_company r = fst a)
             \<and> snd a = nansum (ratio_sum msum) (map grand_total_per_volunteer
                         (filter (\<lambda>r. year r = y \<and> parent_company r = fst a) (companies df))))
       \<and> (\<forall>p. (\<exists>r\<in>set (companies df). year r = y \<and> parent_company r = Some p)
                \<and> Some p \<notin> fst ` set (top10 msum srt df y)
              \<longrightarrow> (\<forall>a\<in>set (top10 msum srt df y).
                     nansum (ratio_sum msum) (map grand_total_per_volunteer
                        (filter (\<lambda>r. year r = y \<and> parent_company r = Some p) (companies df)))
                       \<le> snd a))"
proof -
  have 1: "length (top10 msum srt df y) \<le> 10"
    by (simp add: top10_def top10_of_def)
  have 3: "length (top10 msum srt df y)
             = min 10 (card {p. \<exists>r\<in>set (companies df). year r = y \<and> parent_company r = Some p})"
    using descending_length [OF assms]
    by (simp add: top10_def top10_of_def length_groupby_parent_company_sum companies_of_year
          min.commute)
  then have 2: "length (top10 msum srt df y)
             \<le> card {p. \<exists>r\<in>set (companies df). year r = y \<and> parent_company r = Some p}"
    by simp
  have 4: "distinct (map fst (top10 msum srt df y))"
    unfolding top10_def top10_of_def take_map [symmetric]
    by (intro distinct_take descending_distinct [OF assms] distinct_groupby_parent_company_sum)
  have 5: "sorted_wrt (\<lambda>a b. snd b \<le> snd a) (top10 msum srt df y)"
    using assms unfolding top10_def top10_of_def descending_def
    by (blast intro: sorted_wrt_take)
  have 6: "(\<exists>r\<in>set (companies df). year r = y \<and> parent_company r = fst a)
         \<and> snd a = nansum (ratio_sum msum) (map grand_total_per_volunteer
                     (filter (\<lambda>r. year r = y \<and> parent_company r = fst a) (companies df)))"
    if "a \<in> set (top10 msum srt df y)" for a
  proof -
    from top10_member [OF assms that]
    have m: "a \<in> set (groupby_parent_company_sum msum (companies_y df y))" .
    then have "fst a \<in> set (map parent_company (companies_y df y))"
      by (force simp: groupby_parent_company_sum_def set_unique)
    then have "\<exists>r\<in>set (companies df). year r = y \<and> parent_company r = fst a"
      by (auto simp: companies_y_def)
    moreover from groupby_parent_company_sum_member [OF m]
    have "snd a = nansum (ratio_sum msum) (map grand_total_per_volunteer
                     (filter (\<lambda>r. year r = y \<and> parent_company r = fst a) (companies df)))"
      by (simp only: filter_companies_of_year)
    ultimately show ?thesis by simp
  qed
  have 7: "nansum (ratio_sum msum) (map grand_total_per_volunteer
              (filter (\<lambda>r. year r = y \<and> parent_company r = Some p) (companies df))) \<le> snd a"
    if "\<exists>r\<in>set (companies df). year r = y \<and> parent_company r = Some p"
      and "Some p \<notin> fst ` set (top10 msum srt df y)" and "a \<in> set (top10 msum srt df y)"
    for p a
  proof -
    define b where "b = (Some p, nansum (ratio_sum msum) (map grand_total_per_volunteer
                     (filter (\<lambda>r. parent_company r = Some p) (companies_y df y))))"
    from that(1) obtain r where "r \<in> set (companies_y df y)" "parent_company r = Some p"
      by (auto simp: companies_y_def)
    from group_of_company [OF this]
    have m: "b \<in> set (groupby_parent_company_sum msum (companies_y df y))"
      by (simp add: b_def)
    from that(2) have n: "b \<notin> set (top10_of msum srt (companies_y df y))"
      by (force simp: b_def top10_def)
    from that(3) have "a \<in> set (top10_of msum srt (companies_y df y))"
      by (simp add: top10_def)
    from top10_of_greatest [OF assms m n this] show ?thesis
      by (simp add: b_def filter_companies_of_year)
  qed
  from 1 2 3 4 5 6 7 show ?thesis by blast
qed

text \<open>
  The sample table names one parent company in 2019 and two in 2020, and the rankings of
  the two years differ; of the twelve companies of 2021 in the second table the ten with
  the greatest ratios are ranked.
\<close>

theorem top10_bounded_and_descending_witness:
  "descending sort_values_desc
   \<and> top10 float64_sums sort_values_desc example_df 2019 = [(Some ''Bolt'', 1)]
   \<and> card {p. \<exists>r\<in>set (companies example_df). year r = 2019 \<and> parent_company r = Some p} = 1
   \<and> top10 float64_sums sort_values_desc example_df 2020
       = [(Some ''Acme'', 6), (Some ''Bolt'', 2)]
   \<and> card {p. \<exists>r\<in>set (companies example_df). year r = 2020 \<and> parent_company r = Some p} = 2
   \<and> map snd (top10 float64_sums sort_values_desc example_many 2021)
       = [12, 11, 10, 9, 8, 7, 6, 5, 4, 3]
   \<and> card {p. \<exists>r\<in>set (companies example_many). year r = 2021 \<and> parent_company r = Some p}
       = 12
   \<and> length (top10 float64_sums sort_values_desc example_many 2021)
       = min 10 (card {p. \<exists>r\<in>set (companies example_many). year r = 2021
                           \<and> parent_company r = Some p})
   \<and> sorted_wrt (\<lambda>a b. snd b \<le> snd a) (top10 float64_sums sort_values_desc example_many 2021)"
proof -
  note t = top10_bounded_and_descending [OF descending_sort_values_desc, of float64_sums]
  from t [of example_df 2019]
  have "length (top10 float64_sums sort_values_desc example_df 2019)
      = min 10 (card {p. \<exists>r\<in>set (companies example_df). year r = 2019
                          \<and> parent_company r = Some p})"
    by blast
  then have a: "card {p. \<exists>r\<in>set (companies example_df). year r = 2019
                           \<and> parent_company r = Some p} = 1"
    unfolding top10_example_2019 by (simp add: min_def split: if_splits)
  from t [of example_df 2020]
  have "length (top10 float64_sums sort_values_desc example_df 2020)
      = min 10 (card {p. \<exists>r\<in>set (companies example_df). year r = 2020
                          \<and> parent_company r = Some p})"
    by blast
  then have b: "card {p. \<exists>r\<in>set (companies example_df). year r = 2020
                           \<and> parent_company r = Some p} = 2"
    unfolding top10_example by (simp add: min_def split: if_splits)
  have c: "card {p. \<exists>r\<in>set (companies example_many). year r = 2021
                      \<and> parent_company r = Some p} = 12"
    using length_groupby_parent_company_sum [of float64_sums "companies_y example_many 2021"]
    by (simp only: groups_example_many companies_of_year)
  from t [of example_many 2021]
  have d: "length (top10 float64_sums sort_values_desc example_many 2021)
       = min 10 (card {p. \<exists>r\<in>set (companies example_many). year r = 2021
                           \<and> parent_company r = Some p})"
    and e: "sorted_wrt (\<lambda>a b. snd b \<le> snd a)
              (top10 float64_sums sort_values_desc example_many 2021)"
    by blast+
  from descending_sort_values_desc top10_example_2019 a top10_example b top10_example_many c d e
  show ?thesis by (intro conjI)
qed

text \<open>
  C10. No pair of the ranking has a missing parent company; the ranking is the one of
  the company rows of the year without those that name no parent company; and the sum
  of a pair runs over the rows with the pair's parent company only, so a row without
  parent company adds to no sum.
\<close>

theorem top10_excludes_null_parent_company:
  assumes "descending srt"
  shows "(\<forall>a\<in>set (top10 msum srt df y). fst a \<noteq> None)
       \<and> top10 msum srt df y
           = top10_of msum srt (filter (\<lambda>r. parent_company r \<noteq> None) (companies_y df y))
       \<and> (\<forall>a\<in>set (top10 msum srt df y).
             snd a = nansum (ratio_sum msum) (map grand_total_per_volunteer
                       (filter (\<lambda>r. parent_company r = fst a) (companies_y df y))))"
proof -
  have 1: "\<forall>a\<in>set (top10 msum srt df y). fst a \<noteq> None"
    using top10_member [OF assms] groupby_parent_company_sum_member by blast
  have 2: "top10 msum srt df y
           = top10_of msum srt (filter (\<lambda>r. parent_company r \<noteq> None) (companies_y df y))"
    by (simp only: top10_def top10_of_def groupby_ignores_null_rows)
  have 3: "\<forall>a\<in>set (top10 msum srt df y).
             snd a = nansum (ratio_sum msum) (map grand_total_per_volunteer
                       (filter (\<lambda>r. parent_company r = fst a) (companies_y df y)))"
    using top10_member [OF assms] groupby_parent_company_sum_member by blast
  from 1 2 3 show ?thesis by blast
qed

text \<open>
  In 2020 the sample table has a company row without parent company and with the ratio
  3; the ranking holds Acme with 5 + 1 and Bolt with 2.
\<close>

theorem top10_excludes_null_parent_company_witness:
  "descending sort_values_desc
   \<and> top10 float64_sums sort_values_desc example_df 2020 = [(Some ''Acme'', 6), (Some ''Bolt'', 2)]
   \<and> top10_of float64_sums sort_values_desc
        (filter (\<lambda>r. parent_company r \<noteq> None) (companies_y example_df 2020))
       = [(Some ''Acme'', 6), (Some ''Bolt'', 2)]"
  using top10_excludes_null_parent_company [OF descending_sort_values_desc, of float64_sums example_df 2020]
    descending_sort_values_desc top10_example
  by simp


section \<open>The choices of parent company\<close>

lemma parent_company_options_example:
  "parent_company_options example_df = [''All'', ''Acme'', ''Bolt'']"
  by code_simp

lemma parent_companies_2019_example:
  "parent_companies_present (companies_y example_df 2019) = [''Bolt'']"
  by code_simp

text \<open>
  C8, as the claim states it, fails: with 2019 selected the select box still offers Acme,
  which no company row of 2019 names.
\<close>

theorem parent_company_options_counterexample:
  "set (parent_company_options example_df) \<noteq> parent_company_inputs_of_year example_df 2019"
  by (simp add: parent_company_options_example parent_company_inputs_of_year_def
        parent_companies_2019_example) (auto simp: insert_eq_iff)

text \<open>
  C8, amended. The choices offered are the sentinel \<open>All\<close> and the distinct parent
  companies that the company rows of all years and countries name; the selected year
  does not restrict them, so they include the parent companies of every single year.
\<close>

theorem parent_company_options_of_all_years:
  "set (parent_company_options df)
     = insert ''All'' (set (parent_companies_present (companies df)))
   \<and> parent_company_inputs_of_year df y \<subseteq> set (parent_company_options df)
   \<and> hd (parent_company_options df) = ''All''
   \<and> sorted (tl (parent_company_options df)) \<and> distinct (tl (parent_company_options df))"
proof -
  have "set (parent_companies_present (companies_y df y))
          \<subseteq> set (parent_companies_present (companies df))"
    by (auto simp: parent_companies_present_def set_unique set_dropna companies_y_def)
  then show ?thesis
    by (auto simp: parent_company_options_def parent_company_inputs_of_year_def
          parent_companies_present_def set_unique distinct_unique)
qed

theorem parent_company_options_of_all_years_witness:
  "set (parent_company_options example_df) = {''All'', ''Acme'', ''Bolt''}
   \<and> parent_company_inputs_of_year example_df 2019 = {''All'', ''Bolt''}"
  using parent_company_options_of_all_years [of example_df 2019]
  by (simp add: parent_company_options_example parent_company_inputs_of_year_def
        parent_companies_2019_example)


section \<open>The script on the store\<close>

lemma select_map: "select (map p xs) xs = filter p xs"
  unfolding select_def by (induction xs) auto

lemma select_flags: "length m = length xs \<Longrightarrow> select m xs = map fst (filter snd (zip xs m))"
  unfolding select_def by (induction m xs rule: list_induct2) auto

lemma select_not_flags:
  "length m = length xs \<Longrightarrow> select (map Not m) xs = map fst (filter (\<lambda>rt. \<not> snd rt) (zip xs m))"
  unfolding select_def by (induction m xs rule: list_induct2) auto

lemma holds_rows_append: "holds_rows s a rows \<Longrightarrow> holds_rows (s @ xs) a rows"
  by (auto simp: holds_rows_def nth_append)

lemma holds_rows_new: "frame_rows f = rows \<Longrightarrow> holds_rows (s @ [Table f]) (length s) rows"
  by (simp add: holds_rows_def)

lemma holds_rows_update:
  "holds_rows s a rows \<Longrightarrow> frame_rows f = frame_rows g \<Longrightarrow> s ! b = Table g
     \<Longrightarrow> holds_rows (s[b := Table f]) a rows"
  by (cases "a = b") (auto simp: holds_rows_def)

lemma holds_rows_update_other:
  "holds_rows s a rows \<Longrightarrow> a \<noteq> b \<Longrightarrow> holds_rows (s[b := x]) a rows"
  by (auto simp: holds_rows_def)

lemma holds_rows_extends:
  "holds_rows s0 a rows \<Longrightarrow> take (length s0) s = s0 \<Longrightarrow> holds_rows s a rows"
  by (metis append_take_drop_id holds_rows_append)

lemma getitem_mask_rows:
  assumes "holds_rows s a rows"
  shows "\<exists>f. getitem_mask a (where_rows p) s = Inr (length s, s @ [Table f])
            \<and> frame_rows f = filter p rows"
  using assms
  by (auto simp: holds_rows_def getitem_mask_def bind_def get_table_def where_rows_def
        new_obj_def masked_def select_map)


lemma length_is_total_row: "length (is_total_row rows) = length rows"
  by (simp add: is_total_row_def length_cumcount)

text \<open>
  Lines 34 to 49 with every required column present: four frames are added to the store,
  the frame read, the sorted frame with its \<open>is_total_row\<close> column, \<open>totals\<close> and
  \<open>companies\<close>.
\<close>

lemma load_and_classify_ok:
  assumes "missing (columns t) = []"
  shows "\<exists>n s0. load_and_classify t s = Inr (n, s0) \<and> names_hold (records t) n s0
           \<and> take (length s) s0 = s"
proof -
  define rows where "rows = sort_values (records t)"
  define f1 where "f1 = \<lparr>frame_rows = rows, is_total_row_col = Some (is_total_row rows),
                          custom_hover_col = None\<rparr>"
  define s0 where "s0 = s @ [Table \<lparr>frame_rows = records t, is_total_row_col = None,
                                     custom_hover_col = None\<rparr>,
                             Table f1,
                             Table (masked (is_total_row rows) f1),
                             Table (masked (map Not (is_total_row rows)) f1)]"
  have l: "load_and_classify t s
         = Inr (\<lparr>df_at = length s + 1, totals_at = length s + 2, companies_at = length s + 3\<rparr>,
                s0)"
    using assms
    by (simp add: load_and_classify_def bind_def new_obj_def get_table_def set_is_total_row_def
          put_obj_def getitem_mask_def col_is_total_row_def not_col_is_total_row_def
          return_def raise_def nth_append length_is_total_row list_update_append
          rows_def f1_def s0_def)
  have t: "frame_rows (masked (is_total_row rows) f1) = totals (records t)"
    by (simp add: masked_def f1_def select_flags length_is_total_row totals_def classify_def
          Let_def rows_def)
  have c: "frame_rows (masked (map Not (is_total_row rows)) f1) = companies (records t)"
    by (simp add: masked_def f1_def select_not_flags length_is_total_row companies_def
          classify_def Let_def rows_def)
  have "names_hold (records t)
          \<lparr>df_at = length s + 1, totals_at = length s + 2, companies_at = length s + 3\<rparr> s0"
    using t c
    by (simp add: names_hold_def holds_rows_def s0_def nth_append f1_def rows_def)
  moreover have "take (length s) s0 = s" by (simp add: s0_def)
  ultimately show ?thesis using l by blast
qed

lemma load_and_classify_error:
  assumes "missing (columns t) \<noteq> []"
  shows "load_and_classify t s = Inl (SchemaError (missing (columns t)))"
  using assms by (simp add: load_and_classify_def bind_def new_obj_def raise_def)

lemma views_of_ok:
  assumes "names_hold df n s0" and "take (length s0) s = s0"
  shows "\<exists>v s'. views_of sel n s = Inr (v, s') \<and> take (length s0) s' = s0
           \<and> views_hold (length s0) df sel v s'"
proof -
  have "length (take (length s0) s) = length s0"
    using assms(2) by simp
  then have le: "length s0 \<le> length s"
    by simp
  from assms have t: "holds_rows s (totals_at n) (totals df)"
    and c: "holds_rows s (companies_at n) (companies df)"
    by (auto simp: names_hold_def intro: holds_rows_extends)
  from getitem_mask_rows [OF t, of "\<lambda>r. year r = year_selected sel"]
  obtain f1 where 1: "getitem_mask (totals_at n) (where_rows (\<lambda>r. year r = year_selected sel)) s
        = Inr (length s, s @ [Table f1])"
      "frame_rows f1 = totals_y df (year_selected sel)"
    by (auto simp: totals_y_def)
  define s1 where "s1 = s @ [Table f1]"
  have h1: "holds_rows s1 (length s) (totals_y df (year_selected sel))"
    unfolding s1_def using 1(2) by (rule holds_rows_new)
  from getitem_mask_rows [OF h1, of "\<lambda>r. country r = country_selected sel"]
  obtain f2 where 2: "getitem_mask (length s) (where_rows (\<lambda>r. country r = country_selected sel)) s1
        = Inr (length s1, s1 @ [Table f2])"
      "frame_rows f2 = total_row df (year_selected sel) (country_selected sel)"
    by (auto simp: total_row_def)
  define s2 where "s2 = s1 @ [Table f2]"
  have c2: "holds_rows s2 (companies_at n) (companies df)"
    unfolding s2_def s1_def using c by (intro holds_rows_append)
  from getitem_mask_rows [OF c2, of "\<lambda>r. year r = year_selected sel"]
  obtain f3 where 3: "getitem_mask (companies_at n) (where_rows (\<lambda>r. year r = year_selected sel)) s2
        = Inr (length s2, s2 @ [Table f3])"
      "frame_rows f3 = companies_y df (year_selected sel)"
    by (auto simp: companies_y_def)
  define s3 where "s3 = s2 @ [Table f3]"
  have c3: "holds_rows s3 (companies_at n) (companies df)"
    unfolding s3_def using c2 by (intro holds_rows_append)
  from getitem_mask_rows [OF c3,
      of "\<lambda>r. year r = year_selected sel \<and> country r = country_selected sel"]
  obtain f4 where 4: "getitem_mask (companies_at n)
          (where_rows (\<lambda>r. year r = year_selected sel \<and> country r = country_selected sel)) s3
        = Inr (length s3, s3 @ [Table f4])"
      "frame_rows f4 = companies_yc df (year_selected sel) (country_selected sel)"
    by (auto simp: companies_yc_def)
  define s4 where "s4 = s3 @ [Table f4]"
  have c4: "holds_rows s4 (companies_at n) (companies df)"
    unfolding s4_def using c3 by (intro holds_rows_append)
  from getitem_mask_rows [OF c4, of "\<lambda>r. country r = country_selected sel"]
  obtain f5 where 5: "getitem_mask (companies_at n)
          (where_rows (\<lambda>r. country r = country_selected sel)) s4
        = Inr (length s4, s4 @ [Table f5])"
      "frame_rows f5 = comp_country_all_years df (country_selected sel)"
    by (auto simp: comp_country_all_years_def)
  define s5 where "s5 = s4 @ [Table f5]"
  define v where "v = \<lparr>totals_y_at = length s, total_row_at = length s1,
      companies_y_at = length s2, companies_yc_at = length s3,
      comp_country_all_years_at = length s4\<rparr>"
  have r: "views_of sel n s = Inr (v, s5)"
    by (simp add: views_of_def bind_def 1 2 3 4 5 s1_def [symmetric] s2_def [symmetric]
          s3_def [symmetric] s4_def [symmetric] s5_def [symmetric] return_def v_def)
  have s5: "s5 = s @ [Table f1, Table f2, Table f3, Table f4, Table f5]"
    by (simp add: s5_def s4_def s3_def s2_def s1_def)
  have p: "take (length s0) s5 = s0"
    using assms(2) le by (simp add: s5)
  have vh: "views_hold (length s0) df sel v s5"
    using le 1(2) 2(2) 3(2) 4(2) 5(2)
    by (simp add: views_hold_def v_def holds_rows_def s5 s1_def s2_def s3_def s4_def nth_append)
  from r p vh show ?thesis by blast
qed
lemma sum_axis1_col_length: "sum_axis1_col msum ks gs = Inr a \<Longrightarrow> length a = length gs"
  by (induction gs arbitrary: a) (auto split: sum.splits)

lemma kpi_section_ok:
  assumes "views_hold m df sel v s"
  shows "section_of msum srt sel v Q_kpi s
       = Inr (A_kpi (key_indicators df (year_selected sel) (country_selected sel)), s)"
  using assms
  by (auto simp: views_hold_def holds_rows_def bind_def get_table_def return_def
        key_indicators_def)

lemma trend_types_section_ok:
  assumes "views_hold m df sel v s"
  shows "section_of msum srt sel v Q_trend_types s
       = Inr (A_trend_types (trend_types msum df (country_selected sel)), s)"
  using assms
  by (auto simp: views_hold_def holds_rows_def bind_def get_table_def return_def
        trend_types_def)

lemma top10_section_ok:
  assumes "views_hold m df sel v s"
  shows "section_of msum srt sel v Q_top10 s
       = Inr (A_top10 (top10 msum srt df (year_selected sel)), s)"
  using assms
  by (auto simp: views_hold_def holds_rows_def bind_def get_table_def return_def top10_def)

lemma composition_section_ok:
  assumes "views_hold m df sel v s"
  shows "\<exists>s'. section_of msum srt sel v Q_composition s
           = Inr (A_composition (comp_vals msum df (year_selected sel) (country_selected sel)
                    (parent_company_selected sel)), s')
         \<and> take (length s) s' = s"
proof (cases "parent_company_selected sel = ''All''")
  case True
  with assms show ?thesis
    by (auto simp: views_hold_def holds_rows_def bind_def get_table_def return_def
          comp_vals_def comp_for_comp_def)
next
  case False
  from assms have h: "holds_rows s (companies_yc_at v)
      (companies_yc df (year_selected sel) (country_selected sel))"
    by (simp add: views_hold_def)
  from getitem_mask_rows [OF h, of "\<lambda>r. parent_company r = Some (parent_company_selected sel)"]
  obtain f where f: "getitem_mask (companies_yc_at v)
        (where_rows (\<lambda>r. parent_company r = Some (parent_company_selected sel))) s
        = Inr (length s, s @ [Table f])"
      "frame_rows f = comp_for_comp df (year_selected sel) (country_selected sel)
         (parent_company_selected sel)"
    using False by (auto simp: comp_for_comp_def)
  then have "section_of msum srt sel v Q_composition s
           = Inr (A_composition (comp_vals msum df (year_selected sel) (country_selected sel)
                    (parent_company_selected sel)), s @ [Table f])"
    using False by (simp add: bind_def get_table_def return_def comp_vals_def)
  then show ?thesis by simp
qed

lemma map_section_ok:
  assumes "views_hold m df sel v s"
  shows "\<exists>s'. section_of msum srt sel v Q_map s
           = Inr (A_map (fst (world_map df (year_selected sel) (country_selected sel)))
                        (snd (world_map df (year_selected sel) (country_selected sel))), s')
         \<and> take m s' = take m s \<and> views_hold m df sel v s'"
proof -
  from assms obtain f where f: "totals_y_at v < length s" "s ! totals_y_at v = Table f"
      "frame_rows f = totals_y df (year_selected sel)" and ma: "m \<le> totals_y_at v"
    by (auto simp: views_hold_def holds_rows_def)
  define h where "h = custom_hover (totals_y df (year_selected sel))"
  define s1 where "s1 = s[totals_y_at v := Table (f\<lparr>custom_hover_col := Some h\<rparr>)]"
  have w: "set_custom_hover (totals_y_at v) h s = Inr ((), s1)"
    using f by (simp add: set_custom_hover_def bind_def get_table_def put_obj_def h_def
          custom_hover_def s1_def)
  have g: "get_table (totals_y_at v) s = Inr (f, s)"
    using f by (simp add: get_table_def)
  have g1: "get_table (totals_y_at v) s1 = Inr (f\<lparr>custom_hover_col := Some h\<rparr>, s1)"
    using f by (simp add: get_table_def s1_def)
  have vh1: "views_hold m df sel v s1"
    using assms f unfolding views_hold_def s1_def
    by (auto intro!: holds_rows_update [where g = f])
  then have h1: "holds_rows s1 (totals_y_at v) (totals_y df (year_selected sel))"
    by (simp add: views_hold_def)
  from getitem_mask_rows [OF h1, of "\<lambda>r. country r = country_selected sel"]
  obtain f2 where f2: "getitem_mask (totals_y_at v)
        (where_rows (\<lambda>r. country r = country_selected sel)) s1
        = Inr (length s1, s1 @ [Table f2])"
      "frame_rows f2 = filter (\<lambda>r. country r = country_selected sel)
         (totals_y df (year_selected sel))"
    by auto
  have g2: "get_table (length s1) (s1 @ [Table f2]) = Inr (f2, s1 @ [Table f2])"
    by (simp add: get_table_def)
  have r: "section_of msum srt sel v Q_map s
         = Inr (A_map h (frame_rows f2 \<noteq> []), s1 @ [Table f2])"
    by (simp add: bind_def g f(3) h_def [symmetric] w g1 f2(1) g2 return_def)
  have t: "take m (s1 @ [Table f2]) = take m s"
    using ma f(1) by (simp add: s1_def)
  have vh2: "views_hold m df sel v (s1 @ [Table f2])"
    using vh1 unfolding views_hold_def by (auto intro: holds_rows_append)
  from r t vh2 f2(2) show ?thesis
    by (simp add: world_map_def h_def)
qed

lemma trend_section_ok:
  assumes "views_hold m df sel v s"
  shows "\<exists>a s'. section_of msum srt sel v Q_trend s = Inr (A_trend a, s')
           \<and> trend msum df (country_selected sel) = Inr a \<and> take (length s) s' = s"
proof -
  define rows where "rows = comp_country_all_years df (country_selected sel)"
  from assms obtain f where f: "comp_country_all_years_at v < length s"
      "s ! comp_country_all_years_at v = Table f" "frame_rows f = rows"
    by (auto simp: views_hold_def holds_rows_def rows_def)
  show ?thesis
  proof (cases "rows = []")
    case True
    with f show ?thesis
      by (simp add: bind_def get_table_def return_def trend_def trend_of_def
            rows_def [symmetric])
  next
    case False
    define gs where "gs = groupby_year_sum msum (recyclable @ non_recyclable) rows"
    define ys where "ys = sort (unique (map year rows))"
    have "sum_axis1_col msum recyclable gs
         = Inr (map (\<lambda>y. row_sum msum recyclable (map (\<lambda>k.
                   nansum (group_sum msum k) (map (cell k) (filter (\<lambda>r. year r = y) rows)))
                     recyclable)) ys)"
      unfolding gs_def groupby_year_sum_def ys_def by (rule sum_axis1_col_groups) simp
    then obtain a where a: "sum_axis1_col msum recyclable gs = Inr a" by blast
    have "sum_axis1_col msum non_recyclable gs
         = Inr (map (\<lambda>y. row_sum msum non_recyclable (map (\<lambda>k.
                   nansum (group_sum msum k) (map (cell k) (filter (\<lambda>r. year r = y) rows)))
                     non_recyclable)) ys)"
      unfolding gs_def groupby_year_sum_def ys_def by (rule sum_axis1_col_groups) simp
    then obtain b where b: "sum_axis1_col msum non_recyclable gs = Inr b" by blast
    from a b have la: "length a = length gs" and lb: "length b = length gs"
      by (auto dest: sum_axis1_col_length)
    have p: "trend msum df (country_selected sel) = Inr (Some (trend_rows gs a b))"
      using False a b
      by (simp add: trend_def trend_of_def rows_def [symmetric] gs_def [symmetric])
    have "section_of msum srt sel v Q_trend s
        = Inr (A_trend (Some (trend_rows gs a b)),
               s @ [Grouped \<lparr>group_rows = gs, Recyclable_col = Some a,
                              Non_Recyclable_col = Some b\<rparr>])"
      using f False a b la lb
      by (simp add: bind_def get_table_def new_obj_def get_grouped_def set_Recyclable_def
            set_Non_Recyclable_def put_obj_def return_def gs_def [symmetric])
    with p show ?thesis by simp
  qed
qed

lemma views_hold_extends:
  assumes "views_hold m df sel v s" and "take (length s) s' = s"
  shows "views_hold m df sel v s'"
  using assms unfolding views_hold_def by (auto intro: holds_rows_extends)

lemma take_extends:
  assumes "take (length s) s' = s" and "m \<le> length s"
  shows "take m s' = take m s"
proof -
  have "take m (take (length s) s') = take m s'"
    using assms(2) by (simp add: min_def)
  with assms(1) show ?thesis by simp
qed

text \<open>
  A section on a store that holds the five filtered frames of the selection: it raises
  nothing, hands its chart what \<open>answer_of\<close> says, changes no frame below the address
  \<open>m\<close>, and leaves the rows of the filtered frames as they are.
\<close>

lemma section_of_ok:
  assumes "views_hold m df sel v s"
  shows "\<exists>a s'. section_of msum srt sel v q s = Inr (a, s') \<and> answer_of msum srt df sel q = Inr a
           \<and> take m s' = take m s \<and> views_hold m df sel v s'"
proof -
  from assms have le: "m \<le> length s"
    by (simp add: views_hold_def holds_rows_def)
  show ?thesis
  proof (cases q)
    case Q_kpi
    with kpi_section_ok [OF assms, where msum = msum and srt = srt] assms show ?thesis by simp
  next
    case Q_map
    from map_section_ok [OF assms, where msum = msum and srt = srt] obtain s' where
      c: "section_of msum srt sel v Q_map s
           = Inr (A_map (fst (world_map df (year_selected sel) (country_selected sel)))
                        (snd (world_map df (year_selected sel) (country_selected sel))), s')"
         "take m s' = take m s" "views_hold m df sel v s'" by blast
    then show ?thesis unfolding Q_map by simp
  next
    case Q_composition
    from composition_section_ok [OF assms, where msum = msum and srt = srt] obtain s' where
      "section_of msum srt sel v Q_composition s
           = Inr (A_composition (comp_vals msum df (year_selected sel) (country_selected sel)
                    (parent_company_selected sel)), s')"
      "take (length s) s' = s" by blast
    note c = this
    from c(2) le have t: "take m s' = take m s" by (rule take_extends)
    from assms c(2) have vh: "views_hold m df sel v s'" by (rule views_hold_extends)
    from c(1) t vh show ?thesis unfolding Q_composition by simp
  next
    case Q_trend
    from trend_section_ok [OF assms, where msum = msum and srt = srt] obtain a s' where
      "section_of msum srt sel v Q_trend s = Inr (A_trend a, s')"
      "trend msum df (country_selected sel) = Inr a" "take (length s) s' = s" by blast
    note c = this
    from c(3) le have t: "take m s' = take m s" by (rule take_extends)
    from assms c(3) have vh: "views_hold m df sel v s'" by (rule views_hold_extends)
    from c(1,2) t vh show ?thesis unfolding Q_trend by simp
  next
    case Q_trend_types
    with trend_types_section_ok [OF assms, where msum = msum and srt = srt] assms show ?thesis by simp
  next
    case Q_top10
    with top10_section_ok [OF assms, where msum = msum and srt = srt] assms show ?thesis by simp
  qed
qed

lemma sections_ok:
  assumes "views_hold m df sel v s"
  shows "\<exists>as s'. sections msum srt sel v qs s = Inr (as, s')
           \<and> list_all2 (\<lambda>a q. answer_of msum srt df sel q = Inr a) as qs
           \<and> take m s' = take m s \<and> views_hold m df sel v s'"
  using assms
proof (induction qs arbitrary: s)
  case Nil
  then show ?case by (simp add: return_def)
next
  case (Cons q qs)
  from section_of_ok [OF Cons.prems, where msum = msum and srt = srt and q = q] obtain a s1 where
    1: "section_of msum srt sel v q s = Inr (a, s1)" "answer_of msum srt df sel q = Inr a"
       "take m s1 = take m s" "views_hold m df sel v s1" by blast
  from Cons.IH [OF 1(4)] obtain as s2 where
    2: "sections msum srt sel v qs s1 = Inr (as, s2)"
       "list_all2 (\<lambda>a q. answer_of msum srt df sel q = Inr a) as qs"
       "take m s2 = take m s1" "views_hold m df sel v s2" by blast
  from 1 2 show ?case by (simp add: bind_def return_def)
qed

lemma page_ok:
  assumes "names_hold df n s0" and "take (length s0) s = s0"
  shows "\<exists>as s'. page msum srt n sel qs s = Inr (as, s')
           \<and> list_all2 (\<lambda>a q. answer_of msum srt df sel q = Inr a) as qs
           \<and> take (length s0) s' = s0"
proof -
  from views_of_ok [OF assms, of sel] obtain v s1 where
    1: "views_of sel n s = Inr (v, s1)" "take (length s0) s1 = s0"
       "views_hold (length s0) df sel v s1" by blast
  from sections_ok [OF 1(3), where msum = msum and srt = srt and qs = qs] obtain as s2 where
    2: "sections msum srt sel v qs s1 = Inr (as, s2)"
       "list_all2 (\<lambda>a q. answer_of msum srt df sel q = Inr a) as qs"
       "take (length s0) s2 = take (length s0) s1" by blast
  from 1 2 show ?thesis by (simp add: page_def bind_def)
qed

lemma session_ok:
  assumes "names_hold df n s0" and "take (length s0) s = s0"
  shows "\<exists>rs s'. session msum srt n steps s = Inr (rs, s')
           \<and> list_all2 (\<lambda>as st. list_all2 (\<lambda>a q. answer_of msum srt df (fst st) q = Inr a)
                                   as (snd st)) rs steps
           \<and> take (length s0) s' = s0"
  using assms(2)
proof (induction steps arbitrary: s)
  case Nil
  then show ?case by (simp add: return_def)
next
  case (Cons st steps)
  from page_ok [OF assms(1) Cons.prems, where msum = msum and srt = srt and sel = "fst st"
      and qs = "snd st"] obtain as s1 where
    1: "page msum srt n (fst st) (snd st) s = Inr (as, s1)"
       "list_all2 (\<lambda>a q. answer_of msum srt df (fst st) q = Inr a) as (snd st)"
       "take (length s0) s1 = s0" by blast
  from Cons.IH [OF 1(3)] obtain rs s2 where
    2: "session msum srt n steps s1 = Inr (rs, s2)"
       "list_all2 (\<lambda>as st. list_all2 (\<lambda>a q. answer_of msum srt df (fst st) q = Inr a)
                                   as (snd st)) rs steps"
       "take (length s0) s2 = s0" by blast
  from 1 2 show ?case by (simp add: bind_def return_def)
qed

lemma missing_example: "missing (columns example_table) = []"
  by (simp add: example_table_def missing_def)

text \<open>
  C3. The script stops with the schema error exactly when a required column is absent
  from the frame read; the error names the absent required columns, in the order of the
  list \<open>required\<close>, which has 15 distinct labels. On the error lines 46 to 49 and the
  chart sections do not run: neither frame names nor chart values result. With every
  required column present the script runs through all six sections.
\<close>

theorem schema_error_iff_required_column_missing:
  "((\<exists>cols. dashboard msum srt t sel s = Inl (SchemaError cols))
      \<longleftrightarrow> (\<exists>c\<in>set required. c \<notin> set (columns t)))
   \<and> ((\<exists>c\<in>set required. c \<notin> set (columns t)) \<longrightarrow>
        dashboard msum srt t sel s = Inl (SchemaError (missing (columns t)))
        \<and> load_and_classify t s = Inl (SchemaError (missing (columns t))))
   \<and> (\<not> (\<exists>c\<in>set required. c \<notin> set (columns t)) \<longrightarrow>
        (\<exists>as s'. dashboard msum srt t sel s = Inr (as, s') \<and> length as = length script_order))
   \<and> set (missing (columns t)) = set required - set (columns t)
   \<and> length required = 15 \<and> distinct required"
proof -
  have m: "(missing (columns t) \<noteq> []) = (\<exists>c\<in>set required. c \<notin> set (columns t))"
    by (auto simp: missing_def filter_empty_conv)
  have e: "dashboard msum srt t sel s = Inl (SchemaError (missing (columns t)))
           \<and> load_and_classify t s = Inl (SchemaError (missing (columns t)))"
    if "\<exists>c\<in>set required. c \<notin> set (columns t)"
    using that m by (simp add: dashboard_def bind_def load_and_classify_error)
  have r: "\<exists>as s'. dashboard msum srt t sel s = Inr (as, s') \<and> length as = length script_order"
    if "\<not> (\<exists>c\<in>set required. c \<notin> set (columns t))"
  proof -
    from that m have "missing (columns t) = []" by blast
    from load_and_classify_ok [OF this, of s] obtain n s0 where
      1: "load_and_classify t s = Inr (n, s0)" "names_hold (records t) n s0" by blast
    from page_ok [OF 1(2), where s = s0 and msum = msum and srt = srt and sel = sel
      and qs = script_order] obtain as s' where
      2: "page msum srt n sel script_order s0 = Inr (as, s')"
         "list_all2 (\<lambda>a q. answer_of msum srt (records t) sel q = Inr a) as script_order"
      by auto
    from 2(2) have "length as = length script_order" by (rule list_all2_lengthD)
    with 1 2 show ?thesis by (simp add: dashboard_def bind_def)
  qed
  have i: "(\<exists>cols. dashboard msum srt t sel s = Inl (SchemaError cols))
      \<longleftrightarrow> (\<exists>c\<in>set required. c \<notin> set (columns t))"
    using e r by (cases "\<exists>c\<in>set required. c \<notin> set (columns t)") auto
  have d: "set (missing (columns t)) = set required - set (columns t)"
    by (auto simp: missing_def)
  have l: "length required = 15 \<and> distinct required"
    by (simp add: required_def)
  from i e r d l show ?thesis by blast
qed

text \<open>
  A frame without the column \<open>pvc\<close> stops the script with the error that names
  \<open>pvc\<close>; the sample table has every required column and yields six chart values.
\<close>

theorem schema_error_iff_required_column_missing_witness:
  "dashboard float64_sums sort_values_desc example_table_no_pvc example_selection []
     = Inl (SchemaError [''pvc''])
   \<and> (\<exists>as s'. dashboard float64_sums sort_values_desc example_table example_selection [] = Inr (as, s')
         \<and> length as = 6)"
proof -
  have a: "\<exists>c\<in>set required. c \<notin> set (columns example_table_no_pvc)"
    by code_simp
  have b: "missing (columns example_table_no_pvc) = [''pvc'']"
    by code_simp
  have c: "\<not> (\<exists>c\<in>set required. c \<notin> set (columns example_table))"
    by (simp add: example_table_def)
  from schema_error_iff_required_column_missing
    [where msum = float64_sums and srt = sort_values_desc and t = example_table_no_pvc
      and sel = example_selection and s = "[]"] a
  have "dashboard float64_sums sort_values_desc example_table_no_pvc example_selection []
          = Inl (SchemaError (missing (columns example_table_no_pvc)))"
    by blast
  then have 1: "dashboard float64_sums sort_values_desc example_table_no_pvc example_selection []
          = Inl (SchemaError [''pvc''])"
    by (simp only: b)
  from schema_error_iff_required_column_missing
    [where msum = float64_sums and srt = sort_values_desc and t = example_table
      and sel = example_selection and s = "[]"] c
  have "\<exists>as s'. dashboard float64_sums sort_values_desc example_table example_selection [] = Inr (as, s')
         \<and> length as = length script_order"
    by blast
  moreover have "length script_order = 6"
    by (simp add: script_order_def)
  ultimately have 2: "\<exists>as s'. dashboard float64_sums sort_values_desc example_table example_selection []
         = Inr (as, s') \<and> length as = 6"
    by (simp only:)
  from 1 2 show ?thesis by (rule conjI)
qed

text \<open>
  C9. After the classification, any sequence of passes, each with its own selection and
  its own list of chart sections in any order, raises nothing and leaves every frame
  that the classification built as it was: the frames named \<open>df\<close>, \<open>totals\<close> and
  \<open>companies\<close> keep their rows and columns, the \<open>is_total_row\<close> column among them.
  Each section hands its chart the value \<open>answer_of\<close>, a function of the loaded rows,
  the selection and the section alone, whatever ran before.
\<close>

theorem sections_leave_classified_frames_unchanged:
  assumes "load_and_classify t [] = Inr (n, s0)"
  shows "\<exists>rs s'. session msum srt n steps s0 = Inr (rs, s')
           \<and> take (length s0) s' = s0
           \<and> s' ! df_at n = s0 ! df_at n
           \<and> s' ! totals_at n = s0 ! totals_at n
           \<and> s' ! companies_at n = s0 ! companies_at n
           \<and> holds_rows s' (df_at n) (sort_values (records t))
           \<and> holds_rows s' (totals_at n) (totals (records t))
           \<and> holds_rows s' (companies_at n) (companies (records t))
           \<and> list_all2 (\<lambda>as st. list_all2 (\<lambda>a q. answer_of msum srt (records t) (fst st) q = Inr a)
                                   as (snd st)) rs steps"
proof -
  have "missing (columns t) = []"
  proof (rule ccontr)
    assume "missing (columns t) \<noteq> []"
    from load_and_classify_error [OF this, of "[]"] assms show False by simp
  qed
  from load_and_classify_ok [OF this, of "[]"] assms
  have nh: "names_hold (records t) n s0" by auto
  from session_ok [OF nh, where s = s0 and msum = msum and srt = srt and steps = steps] obtain rs s' where
    1: "session msum srt n steps s0 = Inr (rs, s')"
       "list_all2 (\<lambda>as st. list_all2 (\<lambda>a q. answer_of msum srt (records t) (fst st) q = Inr a)
                                   as (snd st)) rs steps"
       "take (length s0) s' = s0" by auto
  from nh have lt: "df_at n < length s0" "totals_at n < length s0" "companies_at n < length s0"
    by (auto simp: names_hold_def holds_rows_def)
  have nth: "s' ! i = s0 ! i" if "i < length s0" for i
    using that 1(3) by (metis nth_take)
  from nh 1(3) have h: "holds_rows s' (df_at n) (sort_values (records t))"
      "holds_rows s' (totals_at n) (totals (records t))"
      "holds_rows s' (companies_at n) (companies (records t))"
    by (auto simp: names_hold_def intro: holds_rows_extends)
  from 1 lt nth h show ?thesis by auto
qed

lemma key_indicators_example:
  "key_indicators example_df 2020 ''A''
     = Some \<lparr>total_plastic = Some 100, kpi_volunteers = Some 10, events = Some 1,
             per_vol = Some 10\<rparr>"
  by code_simp

text \<open>
  Two passes on the sample table, the second with another selection and the sections in
  reverse order: the classified frames stay, and the first value of the first pass is the
  KPI of country A in 2020.
\<close>

theorem sections_leave_classified_frames_unchanged_witness:
  "\<exists>n s0. load_and_classify example_table [] = Inr (n, s0)
     \<and> (\<exists>rs s'. session float64_sums sort_values_desc n
            [(example_selection, script_order), (example_other_selection, rev script_order)] s0
            = Inr (rs, s')
          \<and> take (length s0) s' = s0
          \<and> s' ! totals_at n = s0 ! totals_at n
          \<and> map length rs = [6, 6]
          \<and> hd (hd rs) = A_kpi (Some \<lparr>total_plastic = Some 100, kpi_volunteers = Some 10,
                                        events = Some 1, per_vol = Some 10\<rparr>))"
proof -
  from load_and_classify_ok [OF missing_example, of "[]"] obtain n s0 where
    l: "load_and_classify example_table [] = Inr (n, s0)" by blast
  from sections_leave_classified_frames_unchanged [OF l, where msum = float64_sums
      and srt = sort_values_desc
      and steps = "[(example_selection, script_order), (example_other_selection, rev script_order)]"]
  obtain rs s' where
    1: "session float64_sums sort_values_desc n
            [(example_selection, script_order), (example_other_selection, rev script_order)] s0
            = Inr (rs, s')"
       "take (length s0) s' = s0" "s' ! totals_at n = s0 ! totals_at n"
       "list_all2 (\<lambda>as st. list_all2 (\<lambda>a q.
            answer_of float64_sums sort_values_desc (records example_table) (fst st) q = Inr a) as (snd st))
          rs [(example_selection, script_order), (example_other_selection, rev script_order)]"
    by blast
  from 1(4) obtain as1 as2 where rs: "rs = [as1, as2]"
      and a1: "list_all2 (\<lambda>a q. answer_of float64_sums sort_values_desc (records example_table)
                  example_selection q = Inr a) as1 script_order"
      and a2: "list_all2 (\<lambda>a q. answer_of float64_sums sort_values_desc (records example_table)
                  example_other_selection q = Inr a) as2 (rev script_order)"
    by (auto simp: list_all2_Cons2)
  from a1 a2 have len: "length as1 = 6" "length as2 = 6"
    by (auto dest: list_all2_lengthD simp: script_order_def)
  from a1 obtain a as where as1: "as1 = a # as"
      and k: "answer_of float64_sums sort_values_desc (records example_table) example_selection Q_kpi = Inr a"
    by (auto simp: script_order_def list_all2_Cons2)
  from k have "a = A_kpi (Some \<lparr>total_plastic = Some 100, kpi_volunteers = Some 10,
                                 events = Some 1, per_vol = Some 10\<rparr>)"
    by (simp add: example_table_def example_selection_def key_indicators_example)
  with rs as1 len have v: "map length rs = [6, 6]"
      "hd (hd rs) = A_kpi (Some \<lparr>total_plastic = Some 100, kpi_volunteers = Some 10,
                                   events = Some 1, per_vol = Some 10\<rparr>)"
    by simp_all
  show ?thesis
    by (intro exI [of _ n] exI [of _ s0] exI [of _ rs] exI [of _ s'] conjI) (fact l 1 v)+
qed

end
